theory Spec2Isabelle
  imports Main "HOL-Library.Word"
begin

unbundle bit_operations_syntax

section \<open>The Windows stream transport of watchman (stream_win.c)\<close>

text \<open>
  The C file wraps a Windows handle in a stream with buffered overlapped reads, a queue
  of overlapped writes, a connect-with-retry for named pipes and a poll over event
  handles. The embedding below follows it function by function. Every call into the
  operating system is an input of the model: the value the call returned is an argument
  of the function that makes the call.
\<close>

subsection \<open>Machine types and the constants of the Windows headers\<close>

type_synonym dword = "32 word"
type_synonym byte = "8 word"

definition MAXIMUM_WAIT_OBJECTS :: int where "MAXIMUM_WAIT_OBJECTS = 64"
definition WAIT_OBJECT_0 :: dword where "WAIT_OBJECT_0 = 0"
definition WAIT_ABANDONED_0 :: dword where "WAIT_ABANDONED_0 = 0x80"
definition WAIT_IO_COMPLETION :: dword where "WAIT_IO_COMPLETION = 0xC0"
definition WAIT_TIMEOUT :: dword where "WAIT_TIMEOUT = 258"
definition WAIT_FAILED :: dword where "WAIT_FAILED = 0xFFFFFFFF"
definition INFINITE :: dword where "INFINITE = 0xFFFFFFFF"

text \<open>
  \<open>errno\<close> values. The table \<open>map_win32_err\<close> that turns a Windows error code into
  an errno is not part of stream_win.c, so its results stay symbolic: the constructor
  \<open>map_win32_err c\<close> is the errno the table gives for the code \<open>c\<close>.
\<close>

datatype errno_val = EAGAIN | E2BIG | map_win32_err dword

text \<open>Ways a call can end without returning to its caller.\<close>

datatype fault = Fatal_abort | Out_of_bounds | Null_deref

datatype log_level = W_LOG_ERR | W_LOG_FATAL

text \<open>
  Modelled from the spec: \<open>w_log\<close> is not in stream_win.c. The spec classes a request
  beyond a hard structural limit as "fatal, must abort rather than return", so a message
  logged at level \<open>W_LOG_FATAL\<close> ends the process and any other level returns.
\<close>

definition w_log :: "log_level \<Rightarrow> fault option" where
  "w_log lvl = (if lvl = W_LOG_FATAL then Some Fatal_abort else None)"

subsection \<open>w_poll_events\<close>

record watchman_event_poll =
  evt :: nat
  ready :: bool

text \<open>
  The loop \<open>for (i = 0; i < n; i++) { handles[i] = p[i].evt; p[i].ready = false; }\<close>.
  \<open>handles\<close> holds the entries written so far. Reading \<open>p[i]\<close> beyond the caller's
  array, or writing beyond the \<open>MAXIMUM_WAIT_OBJECTS\<close> slots of \<open>handles\<close>, is a fault.
\<close>

function poll_clear :: "watchman_event_poll list \<Rightarrow> nat list \<Rightarrow> nat \<Rightarrow> int \<Rightarrow>
    fault + (nat list \<times> watchman_event_poll list)" where
  "poll_clear p handles i n =
     (if int i < n then
        (if length p \<le> i \<or> MAXIMUM_WAIT_OBJECTS \<le> int i then Inl Out_of_bounds
         else poll_clear (p[i := (p ! i)\<lparr>ready := False\<rparr>]) (handles @ [evt (p ! i)]) (Suc i) n)
      else Inr (handles, p))"
  by pat_completeness auto
termination
  by (relation "measure (\<lambda>(p, handles, i, n). nat (n - int i))") auto

declare poll_clear.simps [simp del]

text \<open>\<open>p[k].ready = true\<close>, a fault when \<open>k\<close> is outside the caller's array.\<close>

definition set_ready :: "watchman_event_poll list \<Rightarrow> nat \<Rightarrow>
    fault + watchman_event_poll list" where
  "set_ready p k =
     (if k < length p then Inr (p[k := (p ! k)\<lparr>ready := True\<rparr>]) else Inl Out_of_bounds)"

text \<open>
  \<open>w_poll_events p n timeoutms\<close>. \<open>wait handles millis\<close> is the value of
  \<open>WaitForMultipleObjectsEx(n, handles, false, millis, true)\<close> and \<open>last_err\<close> that of
  \<open>GetLastError()\<close>; \<open>e\<close> is errno on entry. The result is the returned int, the
  array \<open>p\<close> and errno on return.
\<close>

definition w_poll_events :: "(nat list \<Rightarrow> dword \<Rightarrow> dword) \<Rightarrow> dword \<Rightarrow> errno_val \<Rightarrow>
    watchman_event_poll list \<Rightarrow> int \<Rightarrow> int \<Rightarrow>
    fault + (int \<times> watchman_event_poll list \<times> errno_val)" where
  "w_poll_events wait last_err e p n timeoutms =
     (case (if n > MAXIMUM_WAIT_OBJECTS - 1 then w_log W_LOG_FATAL else None) of
        Some f \<Rightarrow> Inl f
      | None \<Rightarrow>
         (case poll_clear p [] 0 n of
            Inl f \<Rightarrow> Inl f
          | Inr (handles, p1) \<Rightarrow>
             (let res = wait handles (if timeoutms = - 1 then INFINITE else word_of_int timeoutms)
              in if res = WAIT_FAILED then Inr (- 1, p1, map_win32_err last_err)
                 else if res < WAIT_OBJECT_0 + word_of_int n then
                   (case set_ready p1 (unat (res - WAIT_OBJECT_0)) of
                      Inl f \<Rightarrow> Inl f | Inr p2 \<Rightarrow> Inr (1, p2, e))
                 else if WAIT_ABANDONED_0 \<le> res \<and> res < WAIT_ABANDONED_0 + word_of_int n then
                   (case set_ready p1 (unat (res - WAIT_ABANDONED_0)) of
                      Inl f \<Rightarrow> Inl f | Inr p2 \<Rightarrow> Inr (1, p2, e))
                 else Inr (0, p1, e))))"

text \<open>
  The documented outcome of a wait for any one of at least one and at most
  \<open>MAXIMUM_WAIT_OBJECTS\<close> handles, as far as the poll depends on it: when a handle is
  signaled the wait returns at once with \<open>WAIT_OBJECT_0\<close> plus the smallest signaled
  index; when none is signaled and the timeout is zero it reports a timeout (or, the wait
  being alertable, a queued completion routine).
\<close>

definition os_wait_any :: "(nat \<Rightarrow> bool) \<Rightarrow> (nat list \<Rightarrow> dword \<Rightarrow> dword) \<Rightarrow> bool" where
  "os_wait_any signaled wait \<longleftrightarrow>
     (\<forall>hs millis. hs \<noteq> [] \<and> length hs \<le> 64 \<longrightarrow>
        (\<forall>i < length hs. signaled (hs ! i) \<and> (\<forall>j < i. \<not> signaled (hs ! j)) \<longrightarrow>
            wait hs millis = WAIT_OBJECT_0 + of_nat i) \<and>
        ((\<forall>h \<in> set hs. \<not> signaled h) \<and> millis = 0 \<longrightarrow>
            wait hs millis = WAIT_TIMEOUT \<or> wait hs millis = WAIT_IO_COMPLETION))"

text \<open>
  A wait that satisfies this description, used to run the poll on concrete arrays: it
  scans the handles from the front and reports the first signaled one, or a timeout.
\<close>

fun wait_first :: "(nat \<Rightarrow> bool) \<Rightarrow> nat list \<Rightarrow> nat \<Rightarrow> dword" where
  "wait_first s [] k = WAIT_TIMEOUT"
| "wait_first s (h # hs) k = (if s h then WAIT_OBJECT_0 + of_nat k else wait_first s hs (Suc k))"

subsection \<open>The endpoint\<close>

type_synonym HANDLE = int

definition INVALID_HANDLE_VALUE :: HANDLE where "INVALID_HANDLE_VALUE = - 1"
definition ERROR_FILE_NOT_FOUND :: dword where "ERROR_FILE_NOT_FOUND = 2"
definition ERROR_SEM_TIMEOUT :: dword where "ERROR_SEM_TIMEOUT = 121"
definition ERROR_PIPE_BUSY :: dword where "ERROR_PIPE_BUSY = 231"
definition ERROR_IO_INCOMPLETE :: dword where "ERROR_IO_INCOMPLETE = 996"
definition ERROR_IO_PENDING :: dword where "ERROR_IO_PENDING = 997"
definition FILE_TYPE_PIPE :: dword where "FILE_TYPE_PIPE = 3"

text \<open>
  \<open>struct write_buf\<close>: \<open>wb_addr\<close> is the address \<open>malloc\<close> gave the block, \<open>cursor\<close>
  the offset of the C pointer \<open>cursor\<close> into \<open>data\<close>; the \<open>next\<close> pointer is the list
  structure of the queue the buffer stands in.
\<close>

record write_buf =
  wb_addr :: nat
  len :: int
  cursor :: nat
  data :: "byte list"

text \<open>
  \<open>struct overlapped_op\<close>: the address of its block and the write buffer it transmits
  (\<open>None\<close> is the \<open>NULL\<close> of a read operation). Its back pointer \<open>h\<close> is the endpoint
  the operation was started on.
\<close>

record overlapped_op =
  op_addr :: nat
  wbuf :: "write_buf option"

text \<open>
  \<open>struct win_handle\<close>. \<open>write_head\<close> is the linked list from \<open>write_head\<close> to
  \<open>write_tail\<close>; \<open>read_cursor\<close> is the offset of the C pointer into \<open>read_buf\<close>. The
  critical section is not modelled: the functions run one at a time.
\<close>

record win_handle =
  read_pending :: "overlapped_op option"
  write_pending :: "overlapped_op option"
  hnd :: HANDLE
  waitable :: HANDLE
  error_pending :: bool
  errcode :: dword
  file_type :: dword
  write_head :: "write_buf list"
  read_buf :: "byte list"
  read_cursor :: nat
  read_avail :: int
  blocking :: bool

text \<open>Calls into the operating system that the model records, in the order made.\<close>

datatype os_call =
    ReadFile_sync int
  | ReadFile_overlapped nat nat dword
  | WriteFile_sync "byte list"
  | WriteFileEx nat nat nat int
  | CancelIoEx nat
  | CloseHandle HANDLE
  | ResetEvent HANDLE
  | SetEvent HANDLE

text \<open>
  A pointer handed to \<open>free\<close>: the start of an allocated block, or the address of the
  \<open>data\<close> member inside a \<open>write_buf\<close> block.
\<close>

datatype ptr = Block nat | Data_member nat

text \<open>
  The endpoint together with what surrounds it: \<open>errno\<close>, whether the event
  \<open>waitable\<close> is signaled, the blocks allocated and not yet freed, the pointers passed
  to \<open>free\<close> that were not the start of a live block, and the calls made.
\<close>

record world = win_handle +
  errno :: errno_val
  event_signaled :: bool
  heap :: "nat set"
  invalid_frees :: "ptr list"
  calls :: "os_call list"

definition sizeof_read_buf :: nat where "sizeof_read_buf = 8192"

definition free :: "ptr \<Rightarrow> world \<Rightarrow> world" where
  "free q w =
     (case q of
        Block a \<Rightarrow> if a \<in> heap w then w\<lparr>heap := heap w - {a}\<rparr>
                   else w\<lparr>invalid_frees := invalid_frees w @ [q]\<rparr>
      | Data_member a \<Rightarrow> w\<lparr>invalid_frees := invalid_frees w @ [q]\<rparr>)"

definition os_call :: "os_call \<Rightarrow> world \<Rightarrow> world" where
  "os_call c w = w\<lparr>calls := calls w @ [c]\<rparr>"

text \<open>Bytes the operating system stores at offset \<open>off\<close> of an array.\<close>

definition store_at :: "nat \<Rightarrow> byte list \<Rightarrow> byte list \<Rightarrow> byte list" where
  "store_at off d buf = take off buf @ take (length buf - off) d @ drop (off + length d) buf"

subsection \<open>Reading\<close>

text \<open>
  \<open>move_from_read_buffer(h, &total_read, &target_buf, &size)\<close>. The caller's buffer is
  the list of bytes stored into it so far. A negative count handed to \<open>memcpy\<close> is a
  fault. The parameter \<open>size\<close> is written \<open>sz\<close> here and below.
\<close>

definition move_from_read_buffer :: "world \<Rightarrow> int \<Rightarrow> byte list \<Rightarrow> int \<Rightarrow>
    fault + (world \<times> int \<times> byte list \<times> int)" where
  "move_from_read_buffer w total_read target_buf sz =
     (let nread = min sz (read_avail w) in
      if nread = 0 then Inr (w, total_read, target_buf, sz)
      else if nread < 0 then Inl Out_of_bounds
      else
        (let copied = take (nat nread) (drop (read_cursor w) (read_buf w));
             w1 = w\<lparr>read_cursor := read_cursor w + nat nread,
                     read_avail := read_avail w - nread\<rparr>;
             wasted = read_cursor w1;
             w2 = (if wasted \<noteq> 0
                   then w1\<lparr>read_buf := store_at 0
                             (take (nat (read_avail w1)) (drop (read_cursor w1) (read_buf w1)))
                             (read_buf w1),
                           read_cursor := 0\<rparr>
                   else w1)
         in Inr (w2, total_read + nread, target_buf @ copied, sz - nread)))"

text \<open>
  \<open>win_read_handle_completion\<close>. \<open>olap_res\<close> is what \<open>get_overlapped_result_ex\<close> reports
  for the pending read: \<open>Inr d\<close> when it has completed, \<open>d\<close> being the bytes the
  operating system stored behind the buffered ones, \<open>Inl err\<close> when it returns false
  with last error \<open>err\<close>.
\<close>

definition win_read_handle_completion :: "(dword + byte list) \<Rightarrow> world \<Rightarrow> bool \<times> world" where
  "win_read_handle_completion olap_res w =
     (case read_pending w of
        None \<Rightarrow> (False, w)
      | Some rp \<Rightarrow>
         (case olap_res of
            Inr d \<Rightarrow>
              (False,
               free (Block (op_addr rp))
                 (w\<lparr>read_buf := store_at (read_cursor w + nat (read_avail w)) d (read_buf w),
                    read_avail := read_avail w + int (length d)\<rparr>)
                 \<lparr>read_pending := None\<rparr>)
          | Inl err \<Rightarrow>
              if err \<noteq> ERROR_IO_INCOMPLETE
              then (False,
                    (free (Block (op_addr rp)) w)
                      \<lparr>read_pending := None, errcode := err, error_pending := True\<rparr>)
              else (True, w)))"

text \<open>
  \<open>win_read_blocking\<close>. \<open>rf\<close> is the outcome of the synchronous \<open>ReadFile\<close>: \<open>Inr d\<close>
  with the bytes read, or \<open>Inl err\<close>. The result is the returned int, the world and the
  bytes stored into the caller's buffer.
\<close>

definition win_read_blocking :: "(dword + byte list) \<Rightarrow> world \<Rightarrow> int \<Rightarrow>
    fault + (int \<times> world \<times> byte list)" where
  "win_read_blocking rf w sz0 =
     (case move_from_read_buffer w 0 [] sz0 of
        Inl f \<Rightarrow> Inl f
      | Inr (w1, total_read, buf, sz) \<Rightarrow>
          if sz = 0 then Inr (total_read, w1, buf)
          else
            (let w2 = os_call (ReadFile_sync sz) w1 in
             case rf of
               Inr d \<Rightarrow> Inr (total_read + int (length d), w2, buf @ d)
             | Inl err \<Rightarrow>
                 if total_read \<noteq> 0 then Inr (total_read, w2, buf)
                 else Inr (- 1, w2\<lparr>errno := map_win32_err err\<rparr>, buf)))"

text \<open>
  \<open>win_read_non_blocking\<close>. \<open>c\<close> is the address \<open>calloc\<close> returns (\<open>None\<close> for
  \<open>NULL\<close>, which the code dereferences); \<open>rf\<close> is the outcome of the overlapped
  \<open>ReadFile\<close>: \<open>Inr d\<close> when it completed at once with the bytes \<open>d\<close> stored at
  \<open>target\<close>, \<open>Inl err\<close> otherwise (\<open>ERROR_IO_PENDING\<close> when it was queued).
\<close>

definition win_read_non_blocking :: "nat option \<Rightarrow> (dword + byte list) \<Rightarrow> world \<Rightarrow> int \<Rightarrow>
    fault + (int \<times> world \<times> byte list)" where
  "win_read_non_blocking c rf w sz0 =
     (case move_from_read_buffer w 0 [] sz0 of
        Inl f \<Rightarrow> Inl f
      | Inr (w1, total_read, buf, sz) \<Rightarrow>
         (let target = read_cursor w1 + nat (read_avail w1);
              target_space = (word_of_int (int sizeof_read_buf - int target) :: dword)
          in case c of
               None \<Rightarrow> Inl Null_deref
             | Some a \<Rightarrow>
                (let w2 = w1\<lparr>read_pending := Some \<lparr>op_addr = a, wbuf = None\<rparr>,
                              heap := insert a (heap w1)\<rparr>;
                     w3 = (if read_avail w2 = 0
                           then os_call (ResetEvent (waitable w2)) (w2\<lparr>event_signaled := False\<rparr>)
                           else w2);
                     w4 = os_call (ReadFile_overlapped a target target_space) w3
                 in case rf of
                      Inl err \<Rightarrow>
                        (let w5 = (if err \<noteq> ERROR_IO_PENDING
                                   then (free (Block a) w4)\<lparr>read_pending := None\<rparr>
                                   else w4)
                         in Inr (if total_read = 0 then - 1 else total_read,
                                 w5\<lparr>errno := map_win32_err err\<rparr>, buf))
                    | Inr d \<Rightarrow>
                        (let w5 = (free (Block a)
                                    (w4\<lparr>read_buf := store_at target d (read_buf w4),
                                        read_avail := read_avail w4 + int (length d)\<rparr>))
                                  \<lparr>read_pending := None\<rparr>
                         in case move_from_read_buffer w5 total_read buf sz of
                              Inl f \<Rightarrow> Inl f
                            | Inr (w6, total_read', buf', sz') \<Rightarrow> Inr (total_read', w6, buf')))))"

text \<open>\<open>win_read\<close>, with the inputs of the three functions it calls.\<close>

definition win_read :: "(dword + byte list) \<Rightarrow> nat option \<Rightarrow> (dword + byte list) \<Rightarrow>
    world \<Rightarrow> int \<Rightarrow> fault + (int \<times> world \<times> byte list)" where
  "win_read olap_res c rf w sz =
     (case win_read_handle_completion olap_res w of
        (True, w1) \<Rightarrow> Inr (- 1, w1\<lparr>errno := EAGAIN\<rparr>, [])
      | (False, w1) \<Rightarrow>
          if error_pending w1
          then Inr (- 1, w1\<lparr>errno := map_win32_err (errcode w1), error_pending := False\<rparr>, [])
          else if blocking w1 then win_read_blocking rf w1 sz
          else win_read_non_blocking c rf w1 sz)"

subsection \<open>Writing\<close>

text \<open>
  \<open>initiate_write\<close>. \<open>c\<close> is the address \<open>calloc\<close> returns and \<open>submitted\<close> the
  value of \<open>WriteFileEx\<close>. The call records the block, cursor and length it hands to
  the operating system.
\<close>

definition initiate_write :: "nat option \<Rightarrow> bool \<Rightarrow> world \<Rightarrow> fault + world" where
  "initiate_write c submitted w =
     (case write_head w of
        [] \<Rightarrow> Inr w
      | b # rest \<Rightarrow>
          if write_pending w \<noteq> None then Inr w
          else
            (case c of
               None \<Rightarrow> Inl Null_deref
             | Some a \<Rightarrow>
                (let w1 = w\<lparr>write_head := rest,
                             write_pending := Some \<lparr>op_addr = a, wbuf = Some b\<rparr>,
                             heap := insert a (heap w)\<rparr>;
                     w2 = os_call (WriteFileEx a (wb_addr b) (cursor b) (len b)) w1
                 in if \<not> submitted
                    then Inr ((free (Block a) w2)\<lparr>write_pending := None\<rparr>)
                    else Inr w2)))"

text \<open>
  \<open>write_completed(err, bytes, olap)\<close>, the completion routine of the operation \<open>wp\<close>;
  \<open>c\<close> and \<open>submitted\<close> are the inputs of the \<open>initiate_write\<close> it calls. Two
  operations are the same pointer when their addresses agree. \<open>wbuf->len -= bytes\<close>
  mixes \<open>int\<close> and \<open>DWORD\<close> and is computed in 32 bits.
\<close>

definition write_completed :: "dword \<Rightarrow> dword \<Rightarrow> overlapped_op \<Rightarrow> nat option \<Rightarrow> bool \<Rightarrow>
    world \<Rightarrow> fault + world" where
  "write_completed err bytes wp c submitted w =
     (case wbuf wp of
        None \<Rightarrow> Inl Null_deref
      | Some b \<Rightarrow>
         (let w1 = (if map_option op_addr (write_pending w) = Some (op_addr wp)
                    then w\<lparr>write_pending := None\<rparr> else w);
              r2 = (if err = 0
                    then (let b' = b\<lparr>cursor := cursor b + unat bytes,
                                    len := sint (word_of_int (len b) - bytes :: dword)\<rparr>
                          in if len b' = 0 then Inr (free (Block (wb_addr b')) w1)
                             else (case w_log W_LOG_FATAL of Some f \<Rightarrow> Inl f | None \<Rightarrow> Inr w1))
                    else Inr (os_call (SetEvent (waitable w1))
                               (w1\<lparr>errcode := err, error_pending := True, event_signaled := True\<rparr>)))
          in case r2 of
               Inl f \<Rightarrow> Inl f
             | Inr w2 \<Rightarrow>
                 (case initiate_write c submitted w2 of
                    Inl f \<Rightarrow> Inl f
                  | Inr w3 \<Rightarrow> Inr (free (Block (op_addr wp)) w3))))"

text \<open>
  \<open>win_write\<close>. \<open>buf\<close> is the caller's buffer and \<open>sz\<close> the parameter \<open>size\<close>.
  \<open>wr\<close> is the outcome of the synchronous \<open>WriteFile\<close> (the count written or the
  error), \<open>m\<close> the address \<open>malloc\<close> returns; \<open>c\<close> and \<open>submitted\<close> are the inputs
  of \<open>initiate_write\<close>. Copying more bytes than the caller's buffer holds, or a
  negative count, is a fault.
\<close>

definition win_write :: "(dword + dword) \<Rightarrow> nat option \<Rightarrow> nat option \<Rightarrow> bool \<Rightarrow>
    world \<Rightarrow> byte list \<Rightarrow> int \<Rightarrow> fault + (int \<times> world)" where
  "win_write wr m c submitted w buf sz =
     (if file_type w \<noteq> FILE_TYPE_PIPE \<and> blocking w \<and> write_head w = []
      then
        (if sz < 0 \<or> int (length buf) < sz then Inl Out_of_bounds
         else
           (let w1 = os_call (WriteFile_sync (take (nat sz) buf)) w in
            case wr of
              Inr bytes \<Rightarrow> Inr (sint bytes, w1)
            | Inl err \<Rightarrow>
                Inr (- 1, os_call (SetEvent (waitable w1))
                           (w1\<lparr>errcode := err, error_pending := True,
                               errno := map_win32_err err, event_signaled := True\<rparr>))))
      else
        (case m of
           None \<Rightarrow> Inr (- 1, w)
         | Some a \<Rightarrow>
            if sz < 0 \<or> int (length buf) < sz then Inl Out_of_bounds
            else
              (let b = \<lparr>wb_addr = a, len = sz, cursor = 0, data = take (nat sz) buf\<rparr>;
                   w1 = w\<lparr>write_head := write_head w @ [b], heap := insert a (heap w)\<rparr>
               in if write_pending w1 = None
                  then (case initiate_write c submitted w1 of
                          Inl f \<Rightarrow> Inl f | Inr w2 \<Rightarrow> Inr (sz, w2))
                  else Inr (sz, w1))))"

subsection \<open>Shutdown and close\<close>

text \<open>
  \<open>win_shutdown\<close>. Each turn of \<open>while (h->write_pending)\<close> is an alertable wait, in
  which the operating system may run the completion routine of the pending write. The
  list holds, per turn, \<open>None\<close> when no routine ran and otherwise the inputs of that
  \<open>write_completed\<close>. When the list is used up and a write is still pending the loop
  has not ended: the result is \<open>None\<close>.
\<close>

fun shutdown_wait :: "(dword \<times> dword \<times> nat option \<times> bool) option list \<Rightarrow> world \<Rightarrow>
    (fault + world) option" where
  "shutdown_wait [] w = (if write_pending w = None then Some (Inr w) else None)"
| "shutdown_wait (t # ts) w =
     (case write_pending w of
        None \<Rightarrow> Some (Inr w)
      | Some wp \<Rightarrow>
          (case t of
             None \<Rightarrow> shutdown_wait ts w
           | Some (err, bytes, c, submitted) \<Rightarrow>
               (case write_completed err bytes wp c submitted w of
                  Inl f \<Rightarrow> Some (Inl f)
                | Inr w1 \<Rightarrow> shutdown_wait ts w1)))"

definition win_shutdown :: "(dword \<times> dword \<times> nat option \<times> bool) option list \<Rightarrow> world \<Rightarrow>
    (fault + (bool \<times> world)) option" where
  "win_shutdown cs w =
     (case shutdown_wait cs (w\<lparr>blocking := True\<rparr>) of
        None \<Rightarrow> None
      | Some (Inl f) \<Rightarrow> Some (Inl f)
      | Some (Inr w1) \<Rightarrow> Some (Inr (True, w1)))"

text \<open>
  The loop of \<open>win_close\<close> over the queue:
  \<open>while (h->write_head) { b = h->write_head; h->write_head = b->next; free(b->data); free(b); }\<close>.
\<close>

fun free_write_bufs :: "write_buf list \<Rightarrow> world \<Rightarrow> world" where
  "free_write_bufs [] w = w\<lparr>write_head := []\<rparr>"
| "free_write_bufs (b # rest) w =
     free_write_bufs rest
       (free (Block (wb_addr b)) (free (Data_member (wb_addr b)) (w\<lparr>write_head := rest\<rparr>)))"

text \<open>
  \<open>win_close\<close>. \<open>cancel_read\<close> and \<open>cancel_write\<close> are the values of the two
  \<open>CancelIoEx\<close> calls, \<open>self\<close> is the address of the \<open>win_handle\<close> block itself. The
  result is the returned int, \<open>stm->handle\<close> (\<open>None\<close> for \<open>NULL\<close>) and the world.
\<close>

definition win_close :: "bool \<Rightarrow> bool \<Rightarrow> nat \<Rightarrow> world \<Rightarrow> int \<times> nat option \<times> world" where
  "win_close cancel_read cancel_write self w =
     (let w1 = (case read_pending w of
                  None \<Rightarrow> w
                | Some rp \<Rightarrow>
                   (let v = os_call (CancelIoEx (op_addr rp)) w in
                    if cancel_read then (free (Block (op_addr rp)) v)\<lparr>read_pending := None\<rparr>
                    else v));
          w2 = (case write_pending w1 of
                  None \<Rightarrow> w1
                | Some wp \<Rightarrow>
                   (let v = os_call (CancelIoEx (op_addr wp)) w1;
                        v1 = (if cancel_write
                              then (free (Block (op_addr wp)) v)\<lparr>write_pending := None\<rparr>
                              else v)
                    in free_write_bufs (write_head v1) v1));
          w3 = (if hnd w2 \<noteq> INVALID_HANDLE_VALUE
                then (os_call (CloseHandle (hnd w2)) w2)\<lparr>hnd := INVALID_HANDLE_VALUE\<rparr>
                else w2);
          w4 = (if waitable w3 \<noteq> 0 then os_call (CloseHandle (waitable w3)) w3 else w3)
      in (0, None, free (Block self) w4))"

subsection \<open>Opening and connecting\<close>

text \<open>
  \<open>w_stm_handleopen\<close>. \<open>cs\<close> and \<open>ch\<close> are the addresses the two \<open>calloc\<close> calls
  return, \<open>ev\<close> the handle \<open>CreateEvent\<close> returns and \<open>ft\<close> the value of
  \<open>GetFileType\<close>; \<open>e\<close> is \<open>errno\<close> and \<open>hp\<close> the heap at the call. The result is the
  stream: the address of its block and that of the endpoint with the endpoint's state, or
  \<open>None\<close> for \<open>NULL\<close>.
\<close>

definition w_stm_handleopen :: "nat option \<Rightarrow> nat option \<Rightarrow> HANDLE \<Rightarrow> dword \<Rightarrow> errno_val \<Rightarrow>
    nat set \<Rightarrow> HANDLE \<Rightarrow> (nat \<times> nat \<times> world) option" where
  "w_stm_handleopen cs ch ev ft e hp handle =
     (if handle = INVALID_HANDLE_VALUE \<or> handle = 0 then None
      else case cs of
             None \<Rightarrow> None
           | Some stm \<Rightarrow>
              (case ch of
                 None \<Rightarrow> None
               | Some a \<Rightarrow>
                  Some (stm, a,
                    \<lparr>read_pending = None, write_pending = None, hnd = handle, waitable = ev,
                     error_pending = False, errcode = 0, file_type = ft, write_head = [],
                     read_buf = replicate sizeof_read_buf 0, read_cursor = 0, read_avail = 0,
                     blocking = True, errno = e, event_signaled = True,
                     heap = insert a (insert stm hp), invalid_frees = [], calls = []\<rparr>)))"

text \<open>
  One turn of the retry loop of \<open>w_stm_connect_named_pipe\<close>, as the operating system
  answers it: the handle \<open>CreateFile\<close> returns and the \<open>GetLastError()\<close> after it,
  the value of \<open>GetTickCount64()\<close> read after a failure, and the outcome of
  \<open>WaitNamedPipe\<close> (\<open>None\<close> when it succeeds, else its error).
\<close>

record attempt =
  create_file :: HANDLE
  last_error :: dword
  tick :: "64 word"
  wait_pipe :: "dword option"

text \<open>
  The accounting of the time left, \<open>if (timeoutms > 0) timeoutms -= (DWORD)(GetTickCount64() - deadline);\<close>.
  \<open>timeoutms\<close> is the C \<open>int\<close>, kept as its 32 bits and read as signed by \<open>sint\<close>;
  the 64-bit difference is cut to a \<open>DWORD\<close> and the subtraction is done in 32 bits.
\<close>

definition time_left :: "dword \<Rightarrow> 64 word \<Rightarrow> 64 word \<Rightarrow> dword" where
  "time_left timeoutms deadline now =
     (if 0 < sint timeoutms then timeoutms - ucast (now - deadline) else timeoutms)"

text \<open>
  The body from \<open>retry_connect:\<close> on. The list holds the answers to the successive
  turns; when it is used up and the loop would go round again the call has not returned:
  the result is \<open>None\<close>. Otherwise the result is the stream, or \<open>None\<close> for \<open>NULL\<close>,
  and \<open>errno\<close>.
\<close>

fun retry_connect :: "nat option \<Rightarrow> nat option \<Rightarrow> HANDLE \<Rightarrow> dword \<Rightarrow> errno_val \<Rightarrow> nat set \<Rightarrow>
    string \<Rightarrow> dword \<Rightarrow> 64 word \<Rightarrow> attempt list \<Rightarrow>
    ((nat \<times> nat \<times> world) option \<times> errno_val) option" where
  "retry_connect cs ch ev ft e hp path timeoutms deadline [] = None"
| "retry_connect cs ch ev ft e hp path timeoutms deadline (a # as) =
     (if create_file a \<noteq> INVALID_HANDLE_VALUE
      then Some (w_stm_handleopen cs ch ev ft e hp (create_file a), e)
      else
        (let err = last_error a;
             timeoutms1 = time_left timeoutms deadline (tick a)
         in if sint timeoutms1 \<le> 0 \<or> (err \<noteq> ERROR_PIPE_BUSY \<and> err \<noteq> ERROR_FILE_NOT_FOUND)
            then Some (None, map_win32_err err)
            else
              (case wait_pipe a of
                 None \<Rightarrow> retry_connect cs ch ev ft e hp path timeoutms1 deadline as
               | Some werr \<Rightarrow>
                   if werr = ERROR_SEM_TIMEOUT then Some (None, map_win32_err werr)
                   else retry_connect cs ch ev ft e hp path timeoutms1 deadline as)))"

text \<open>
  \<open>w_stm_connect_named_pipe(path, timeoutms)\<close>; \<open>start\<close> is the first value of
  \<open>GetTickCount64()\<close>.
\<close>

definition w_stm_connect_named_pipe :: "nat option \<Rightarrow> nat option \<Rightarrow> HANDLE \<Rightarrow> dword \<Rightarrow>
    errno_val \<Rightarrow> nat set \<Rightarrow> 64 word \<Rightarrow> attempt list \<Rightarrow> string \<Rightarrow> dword \<Rightarrow>
    ((nat \<times> nat \<times> world) option \<times> errno_val) option" where
  "w_stm_connect_named_pipe cs ch ev ft e hp start attempts path timeoutms =
     (let deadline = start + scast timeoutms in
      if length path > 255 then Some (None, E2BIG)
      else retry_connect cs ch ev ft e hp path timeoutms deadline attempts)"

text \<open>
  \<open>w_handle_open(path, flags)\<close>. The values of the \<open>O_*\<close> macros come from headers
  outside stream_win.c and are a parameter.
\<close>

record oflags =
  O_WRONLY :: dword
  O_RDWR :: dword
  O_CLOEXEC :: dword
  O_CREAT :: dword
  O_EXCL :: dword
  O_TRUNC :: dword
  O_DIRECTORY :: dword

definition GENERIC_READ :: dword where "GENERIC_READ = 0x80000000"
definition GENERIC_WRITE :: dword where "GENERIC_WRITE = 0x40000000"
definition FILE_SHARE_READ :: dword where "FILE_SHARE_READ = 1"
definition FILE_SHARE_WRITE :: dword where "FILE_SHARE_WRITE = 2"
definition FILE_SHARE_DELETE :: dword where "FILE_SHARE_DELETE = 4"
definition CREATE_NEW :: dword where "CREATE_NEW = 1"
definition CREATE_ALWAYS :: dword where "CREATE_ALWAYS = 2"
definition OPEN_EXISTING :: dword where "OPEN_EXISTING = 3"
definition OPEN_ALWAYS :: dword where "OPEN_ALWAYS = 4"
definition TRUNCATE_EXISTING :: dword where "TRUNCATE_EXISTING = 5"
definition FILE_ATTRIBUTE_NORMAL :: dword where "FILE_ATTRIBUTE_NORMAL = 0x80"
definition FILE_FLAG_BACKUP_SEMANTICS :: dword where "FILE_FLAG_BACKUP_SEMANTICS = 0x02000000"

text \<open>The arguments of the \<open>CreateFileW\<close> call.\<close>

record 'p create_args =
  lpFileName :: 'p
  dwDesiredAccess :: dword
  dwShareMode :: dword
  bInheritHandle :: bool
  dwCreationDisposition :: dword
  dwFlagsAndAttributes :: dword

definition open_args :: "oflags \<Rightarrow> 'p \<Rightarrow> dword \<Rightarrow> 'p create_args" where
  "open_args fl wpath flags =
     (let access0 = (if flags AND (O_WRONLY fl OR O_RDWR fl) \<noteq> 0 then GENERIC_WRITE else 0);
          access = (if flags AND O_WRONLY fl = 0 then access0 OR GENERIC_READ else access0);
          share = FILE_SHARE_DELETE OR FILE_SHARE_READ OR FILE_SHARE_WRITE;
          inherit = (if flags AND O_CLOEXEC fl \<noteq> 0 then False else True);
          create =
            (if flags AND (O_CREAT fl OR O_EXCL fl) = (O_CREAT fl OR O_EXCL fl) then CREATE_NEW
             else if flags AND (O_CREAT fl OR O_TRUNC fl) = (O_CREAT fl OR O_TRUNC fl)
               then CREATE_ALWAYS
             else if flags AND O_CREAT fl \<noteq> 0 then OPEN_ALWAYS
             else if flags AND O_TRUNC fl \<noteq> 0 then TRUNCATE_EXISTING
             else OPEN_EXISTING);
          attrs = (if flags AND O_DIRECTORY fl \<noteq> 0
                   then FILE_ATTRIBUTE_NORMAL OR FILE_FLAG_BACKUP_SEMANTICS
                   else FILE_ATTRIBUTE_NORMAL)
      in \<lparr>lpFileName = wpath, dwDesiredAccess = access, dwShareMode = share,
          bInheritHandle = inherit, dwCreationDisposition = create,
          dwFlagsAndAttributes = attrs\<rparr>)"

text \<open>
  \<open>w_utf8_to_win_unc\<close> is not in stream_win.c: the conversion is the parameter
  \<open>to_unc\<close>, \<open>None\<close> being its \<open>NULL\<close>. \<open>CreateFileW\<close> gives the handle and the
  \<open>GetLastError()\<close> after it. The result is the handle returned and \<open>errno\<close>.
\<close>

definition w_handle_open :: "oflags \<Rightarrow> (string \<Rightarrow> 'p option) \<Rightarrow> ('p create_args \<Rightarrow> HANDLE \<times> dword) \<Rightarrow>
    errno_val \<Rightarrow> string \<Rightarrow> dword \<Rightarrow> HANDLE \<times> errno_val" where
  "w_handle_open fl to_unc CreateFileW e path flags =
     (let path1 = (if path = ''/dev/null'' then ''NUL:'' else path) in
      case to_unc path1 of
        None \<Rightarrow> (INVALID_HANDLE_VALUE, e)
      | Some wpath \<Rightarrow>
          (let (handle, err) = CreateFileW (open_args fl wpath flags)
           in (handle, map_win32_err err)))"

subsection \<open>Endpoints to run the functions on\<close>

text \<open>
  \<open>pipe_endpoint\<close> is the endpoint \<open>w_stm_handleopen\<close> builds on a pipe handle,
  \<open>buffered3\<close> the same after a read completed with three bytes, \<open>write_failed\<close> the
  same after a one-byte write whose completion routine was given the error 109.
  \<open>writing_A\<close> has the buffer \<open>buf_A\<close> in flight, \<open>queued_BC\<close> has \<open>buf_B\<close> and \<open>buf_C\<close>
  queued behind it, and \<open>stalled_C\<close> has nothing in flight and \<open>buf_C\<close> queued.
\<close>

definition pipe_endpoint :: world where
  "pipe_endpoint =
     \<lparr>read_pending = None, write_pending = None, hnd = 5, waitable = 7,
      error_pending = False, errcode = 0, file_type = FILE_TYPE_PIPE, write_head = [],
      read_buf = replicate sizeof_read_buf 0, read_cursor = 0, read_avail = 0,
      blocking = True, errno = EAGAIN, event_signaled = True,
      heap = {2, 1}, invalid_frees = [], calls = []\<rparr>"

definition buffered3 :: world where
  "buffered3 = pipe_endpoint\<lparr>read_buf := store_at 0 [1, 2, 3] (read_buf pipe_endpoint),
                              read_avail := 3\<rparr>"

definition write_failed :: world where
  "write_failed = pipe_endpoint\<lparr>errcode := 109, error_pending := True, heap := {10, 2, 1},
                                 calls := [WriteFileEx 11 10 0 1, SetEvent 7]\<rparr>"

definition buf_A :: write_buf where "buf_A = \<lparr>wb_addr = 100, len = 1, cursor = 0, data = [65]\<rparr>"

definition buf_B :: write_buf where "buf_B = \<lparr>wb_addr = 101, len = 1, cursor = 0, data = [66]\<rparr>"

definition buf_C :: write_buf where "buf_C = \<lparr>wb_addr = 102, len = 1, cursor = 0, data = [67]\<rparr>"

definition writing_A :: world where
  "writing_A = pipe_endpoint\<lparr>write_pending := Some \<lparr>op_addr = 200, wbuf = Some buf_A\<rparr>,
                 heap := {200, 100, 2, 1}, calls := [WriteFileEx 200 100 0 1]\<rparr>"

definition queued_BC :: world where
  "queued_BC = writing_A\<lparr>write_head := [buf_B, buf_C], heap := {102, 101, 200, 100, 2, 1}\<rparr>"

definition stalled_C :: world where
  "stalled_C = pipe_endpoint\<lparr>write_head := [buf_C], heap := {102, 101, 2, 1},
                 calls := [WriteFileEx 200 100 0 1, WriteFileEx 201 101 0 1]\<rparr>"

subsection \<open>Answers of the operating system to run the connect and the open on\<close>

text \<open>
  \<open>not_found t\<close> is a turn of the connect loop at tick \<open>t\<close> in which the pipe does not
  exist, \<open>busy_timed_out t\<close> one in which it is busy and the wait for it times out.
  \<open>msvc_oflags\<close> are the values of the \<open>O_*\<close> macros in the Microsoft C runtime, with
  \<open>O_CLOEXEC\<close> and \<open>O_DIRECTORY\<close> as \<open>_O_NOINHERIT\<close> and \<open>_O_OBTAIN_DIR\<close>.
\<close>

definition not_found :: "64 word \<Rightarrow> attempt" where
  "not_found t = \<lparr>create_file = INVALID_HANDLE_VALUE, last_error = ERROR_FILE_NOT_FOUND,
                   tick = t, wait_pipe = Some ERROR_FILE_NOT_FOUND\<rparr>"

definition busy_timed_out :: "64 word \<Rightarrow> attempt" where
  "busy_timed_out t = \<lparr>create_file = INVALID_HANDLE_VALUE, last_error = ERROR_PIPE_BUSY,
                        tick = t, wait_pipe = Some ERROR_SEM_TIMEOUT\<rparr>"

definition msvc_oflags :: oflags where
  "msvc_oflags = \<lparr>O_WRONLY = 0x0001, O_RDWR = 0x0002, O_CLOEXEC = 0x0080, O_CREAT = 0x0100,
                   O_EXCL = 0x0400, O_TRUNC = 0x0200, O_DIRECTORY = 0x2000\<rparr>"

section \<open>Properties\<close>

subsection \<open>The poll loop\<close>

lemma poll_clear_Inr:
  "nat n \<le> length p \<Longrightarrow> n \<le> MAXIMUM_WAIT_OBJECTS \<Longrightarrow>
   \<exists>p'. poll_clear p handles i n = Inr (handles @ map evt (drop i (take (nat n) p)), p') \<and>
        length p' = length p \<and>
        (\<forall>j < length p. evt (p' ! j) = evt (p ! j) \<and>
           ready (p' ! j) = (if i \<le> j \<and> int j < n then False else ready (p ! j)))"
proof (induction p handles i n rule: poll_clear.induct)
  case (1 p handles i n)
  show ?case
  proof (cases "int i < n")
    case False
    then have "drop i (take (nat n) p) = []" by simp
    moreover have "poll_clear p handles i n = Inr (handles, p)"
      using False by (simp add: poll_clear.simps [of p handles i n])
    ultimately show ?thesis using False by auto
  next
    case True
    let ?q = "p[i := (p ! i)\<lparr>ready := False\<rparr>]"
    from True "1.prems" have il: "i < length p" and im: "\<not> MAXIMUM_WAIT_OBJECTS \<le> int i"
      by auto
    have len: "nat n \<le> length ?q" using "1.prems" by simp
    from "1.IH" [OF True _ len "1.prems"(2)] il im
    obtain p' where
      run: "poll_clear ?q (handles @ [evt (p ! i)]) (Suc i) n =
              Inr ((handles @ [evt (p ! i)]) @ map evt (drop (Suc i) (take (nat n) ?q)), p')"
      and lp: "length p' = length ?q"
      and each: "\<forall>j < length ?q. evt (p' ! j) = evt (?q ! j) \<and>
           ready (p' ! j) = (if Suc i \<le> j \<and> int j < n then False else ready (?q ! j))"
      by auto
    have tk: "drop (Suc i) (take (nat n) ?q) = drop (Suc i) (take (nat n) p)"
      by (simp add: take_update_swap drop_update_cancel)
    have "i < length (take (nat n) p)" using True il by simp
    from Cons_nth_drop_Suc [OF this]
    have hd: "drop i (take (nat n) p) = p ! i # drop (Suc i) (take (nat n) p)"
      using True by simp
    have r: "poll_clear p handles i n =
        Inr (handles @ map evt (drop i (take (nat n) p)), p')"
      using True il im run tk hd by (simp add: poll_clear.simps [of p handles i n])
    have e: "\<forall>j < length p. evt (p' ! j) = evt (p ! j) \<and>
           ready (p' ! j) = (if i \<le> j \<and> int j < n then False else ready (p ! j))"
    proof (intro allI impI)
      fix j assume j: "j < length p"
      with each have a: "evt (p' ! j) = evt (?q ! j)"
        and b: "ready (p' ! j) = (if Suc i \<le> j \<and> int j < n then False else ready (?q ! j))"
        by auto
      show "evt (p' ! j) = evt (p ! j) \<and>
           ready (p' ! j) = (if i \<le> j \<and> int j < n then False else ready (p ! j))"
        using a b j il True by (cases "j = i") (auto simp: nth_list_update)
    qed
    from r lp e show ?thesis by auto
  qed
qed


lemma unat_of_nat_small: "i < 64 \<Longrightarrow> unat (of_nat i :: dword) = i"
  by (simp add: unat_of_nat)

lemma unat_woi: "0 \<le> n \<Longrightarrow> n \<le> 64 \<Longrightarrow> unat (word_of_int n :: dword) = nat n"
  by (simp add: unat_eq_nat_uint uint_word_of_int take_bit_eq_mod)

lemma idx_obj: "0 \<le> n \<Longrightarrow> n \<le> 64 \<Longrightarrow> (res::dword) < WAIT_OBJECT_0 + word_of_int n \<Longrightarrow>
   unat (res - WAIT_OBJECT_0) < nat n"
  by (simp add: WAIT_OBJECT_0_def word_less_nat_alt unat_woi)

lemma idx_ab:
  assumes "0 \<le> n" "n \<le> 64" "WAIT_ABANDONED_0 \<le> (res::dword)"
    "res < WAIT_ABANDONED_0 + word_of_int n"
  shows "unat (res - WAIT_ABANDONED_0) < nat n"
proof -
  have a: "unat (WAIT_ABANDONED_0 :: dword) = 128" by (simp add: WAIT_ABANDONED_0_def)
  have "unat (WAIT_ABANDONED_0 + word_of_int n :: dword) = 128 + nat n"
    using assms(1,2) a by (simp add: unat_word_ariths unat_woi)
  with assms(4) have lt: "unat res < 128 + nat n" by (simp add: word_less_nat_alt)
  from assms(3) have ge: "128 \<le> unat res" using a by (simp add: word_le_nat_alt)
  from assms(3) have "unat (res - WAIT_ABANDONED_0) = unat res - 128"
    using a by (simp add: unat_sub)
  with lt ge show ?thesis by simp
qed

lemma set_ready_Inr: "k < length p \<Longrightarrow> set_ready p k = Inr (p[k := (p ! k)\<lparr>ready := True\<rparr>])"
  by (simp add: set_ready_def)

text \<open>
  Claim C6. A call of \<open>w_poll_events\<close> with more than \<open>MAXIMUM_WAIT_OBJECTS - 1\<close>
  endpoints logs at the fatal level and ends there: it aborts, whatever the wait would
  have reported, and returns no value to the caller.
\<close>

theorem poll_fatal: "n > MAXIMUM_WAIT_OBJECTS - 1 \<Longrightarrow> w_poll_events wait last_err e p n timeoutms = Inl Fatal_abort"
  by (simp add: w_poll_events_def w_log_def)

theorem poll_fatal_witness: "w_poll_events (\<lambda>hs m. WAIT_TIMEOUT) 0 EAGAIN [] 64 0 = Inl Fatal_abort"
  using poll_fatal [of 64 "\<lambda>hs m. WAIT_TIMEOUT" 0 EAGAIN "[]" 0] by (simp add: MAXIMUM_WAIT_OBJECTS_def)

text \<open>
  Claim C9. A call of \<open>w_poll_events\<close> within the limit returns \<open>-1\<close>, \<open>0\<close> or \<open>1\<close>
  and leaves at most one of the \<open>n\<close> entries ready, whatever the wait reports (so also
  when several events are signaled): every flag is cleared first and only the one index
  the wait reports is set, and a ready entry means the call returned \<open>1\<close>.
\<close>

theorem poll_at_most_one:
  assumes n0: "0 \<le> n" and nmax: "n \<le> MAXIMUM_WAIT_OBJECTS - 1" and np: "nat n \<le> length p"
  shows "\<exists>r p' e'. w_poll_events wait last_err e p n timeoutms = Inr (r, p', e') \<and>
           (r = - 1 \<or> r = 0 \<or> r = 1) \<and> length p' = length p \<and>
           (\<forall>j k. j < nat n \<and> k < nat n \<and> ready (p' ! j) \<and> ready (p' ! k) \<longrightarrow> j = k) \<and>
           ((\<exists>j < nat n. ready (p' ! j)) \<longrightarrow> r = 1)"
proof -
  from nmax have n64: "n \<le> MAXIMUM_WAIT_OBJECTS" and n64': "n \<le> 64" and nolog: "\<not> n > MAXIMUM_WAIT_OBJECTS - 1"
    by (simp_all add: MAXIMUM_WAIT_OBJECTS_def)
  from poll_clear_Inr [OF np n64, of "[]" 0] obtain hs p1 where
    pc: "poll_clear p [] 0 n = Inr (hs, p1)" and l1: "length p1 = length p"
    and r1: "\<forall>j < length p. ready (p1 ! j) = (if int j < n then False else ready (p ! j))"
    by auto
  have clr: "\<And>j. j < nat n \<Longrightarrow> \<not> ready (p1 ! j)" using r1 np by auto
  define res where "res = wait hs (if timeoutms = - 1 then INFINITE else word_of_int timeoutms)"
  have mark: "\<And>k. k < nat n \<Longrightarrow> \<exists>p2. set_ready p1 k = Inr p2 \<and> length p2 = length p \<and>
       (\<forall>j < nat n. ready (p2 ! j) \<longleftrightarrow> j = k)"
  proof -
    fix k assume k: "k < nat n"
    then have kl: "k < length p1" using np l1 by simp
    have "\<forall>j < nat n. ready ((p1[k := (p1 ! k)\<lparr>ready := True\<rparr>]) ! j) \<longleftrightarrow> j = k"
      using clr kl by (auto simp: nth_list_update)
    then show "\<exists>p2. set_ready p1 k = Inr p2 \<and> length p2 = length p \<and>
       (\<forall>j < nat n. ready (p2 ! j) \<longleftrightarrow> j = k)"
      using kl l1 by (simp add: set_ready_Inr)
  qed
  consider (failed) "res = WAIT_FAILED"
    | (obj) "res \<noteq> WAIT_FAILED" "res < WAIT_OBJECT_0 + word_of_int n"
    | (ab) "res \<noteq> WAIT_FAILED" "\<not> res < WAIT_OBJECT_0 + word_of_int n"
        "WAIT_ABANDONED_0 \<le> res \<and> res < WAIT_ABANDONED_0 + word_of_int n"
    | (none) "res \<noteq> WAIT_FAILED" "\<not> res < WAIT_OBJECT_0 + word_of_int n"
        "\<not> (WAIT_ABANDONED_0 \<le> res \<and> res < WAIT_ABANDONED_0 + word_of_int n)"
    by blast
  then show ?thesis
  proof cases
    case failed
    then have "w_poll_events wait last_err e p n timeoutms = Inr (- 1, p1, map_win32_err last_err)"
      using nolog pc by (simp add: w_poll_events_def res_def)
    then show ?thesis using l1 clr by auto
  next
    case obj
    from mark [OF idx_obj [OF n0 n64' obj(2)]] obtain p2 where
      s: "set_ready p1 (unat (res - WAIT_OBJECT_0)) = Inr p2" and l2: "length p2 = length p"
      and r2: "\<forall>j < nat n. ready (p2 ! j) \<longleftrightarrow> j = unat (res - WAIT_OBJECT_0)" by blast
    have "w_poll_events wait last_err e p n timeoutms = Inr (1, p2, e)"
      using nolog pc obj s by (simp add: w_poll_events_def res_def [symmetric])
    then show ?thesis using l2 r2 by auto
  next
    case ab
    from mark [OF idx_ab [OF n0 n64' ab(3) [THEN conjunct1] ab(3) [THEN conjunct2]]] obtain p2 where
      s: "set_ready p1 (unat (res - WAIT_ABANDONED_0)) = Inr p2" and l2: "length p2 = length p"
      and r2: "\<forall>j < nat n. ready (p2 ! j) \<longleftrightarrow> j = unat (res - WAIT_ABANDONED_0)" by blast
    have "w_poll_events wait last_err e p n timeoutms = Inr (1, p2, e)"
      using nolog pc ab s by (simp add: w_poll_events_def res_def [symmetric])
    then show ?thesis using l2 r2 by auto
  next
    case none
    then have "w_poll_events wait last_err e p n timeoutms = Inr (0, p1, e)"
      using nolog pc by (auto simp add: w_poll_events_def res_def [symmetric])
    then show ?thesis using l1 clr by auto
  qed
qed

lemma wait_first_none: "\<forall>h \<in> set hs. \<not> s h \<Longrightarrow> wait_first s hs k = WAIT_TIMEOUT"
  by (induction hs arbitrary: k) auto

lemma wait_first_index:
  "i < length hs \<Longrightarrow> s (hs ! i) \<Longrightarrow> \<forall>j < i. \<not> s (hs ! j) \<Longrightarrow>
   wait_first s hs k = WAIT_OBJECT_0 + of_nat (k + i)"
proof (induction hs arbitrary: i k)
  case Nil
  then show ?case by simp
next
  case (Cons h hs)
  show ?case
  proof (cases i)
    case 0
    with Cons.prems show ?thesis by simp
  next
    case (Suc m)
    with Cons.prems have nh: "\<not> s h" by auto
    from Suc Cons.prems have "m < length hs" "s (hs ! m)" "\<forall>j < m. \<not> s (hs ! j)" by auto
    from Cons.IH [OF this, of "Suc k"] nh Suc show ?thesis by simp
  qed
qed

lemma os_wait_any_wait_first: "os_wait_any s (\<lambda>hs millis. wait_first s hs 0)"
  unfolding os_wait_any_def
proof (intro allI impI conjI)
  fix hs :: "nat list" and i
  assume "i < length hs" and "s (hs ! i) \<and> (\<forall>j < i. \<not> s (hs ! j))"
  then show "wait_first s hs 0 = WAIT_OBJECT_0 + of_nat i"
    using wait_first_index [of i hs s 0] by simp
next
  fix hs :: "nat list" and millis :: dword
  assume "(\<forall>h \<in> set hs. \<not> s h) \<and> millis = 0"
  then show "wait_first s hs 0 = WAIT_TIMEOUT \<or> wait_first s hs 0 = WAIT_IO_COMPLETION"
    by (simp add: wait_first_none)
qed

text \<open>
  Claim C5. When exactly one of the \<open>n\<close> endpoints has its event signaled at the call,
  \<open>w_poll_events\<close> returns \<open>1\<close> and exactly that endpoint is ready on return; when no
  event is signaled and the timeout is \<open>0\<close>, it returns \<open>0\<close> with no endpoint ready.
  The wait is the operating system's: \<open>os_wait_any\<close> is what the poll relies on.
\<close>

theorem poll_one_signaled:
  assumes os: "os_wait_any signaled wait"
    and nmax: "n \<le> MAXIMUM_WAIT_OBJECTS - 1" and np: "nat n \<le> length p"
  shows "(i < nat n \<and> (\<forall>j < nat n. signaled (evt (p ! j)) \<longleftrightarrow> j = i) \<longrightarrow>
            (\<exists>p'. w_poll_events wait last_err e p n timeoutms = Inr (1, p', e) \<and>
                  length p' = length p \<and> (\<forall>j < nat n. ready (p' ! j) \<longleftrightarrow> j = i))) \<and>
         (1 \<le> n \<and> (\<forall>j < nat n. \<not> signaled (evt (p ! j))) \<longrightarrow>
            (\<exists>p'. w_poll_events wait last_err e p n 0 = Inr (0, p', e) \<and>
                  length p' = length p \<and> (\<forall>j < nat n. \<not> ready (p' ! j))))"
proof (intro conjI impI)
  from nmax have n64: "n \<le> MAXIMUM_WAIT_OBJECTS" and n64': "n \<le> 64"
    and nolog: "\<not> n > MAXIMUM_WAIT_OBJECTS - 1"
    by (simp_all add: MAXIMUM_WAIT_OBJECTS_def)
  from poll_clear_Inr [OF np n64, of "[]" 0] obtain p1 where
    pc: "poll_clear p [] 0 n = Inr (map evt (take (nat n) p), p1)" and l1: "length p1 = length p"
    and r1: "\<forall>j < length p. ready (p1 ! j) = (if int j < n then False else ready (p ! j))"
    by auto
  have clr: "\<And>j. j < nat n \<Longrightarrow> \<not> ready (p1 ! j)" using r1 np by auto
  let ?hs = "map evt (take (nat n) p)"
  have lhs: "length ?hs = nat n" using np by simp
  have nth: "\<And>j. j < nat n \<Longrightarrow> ?hs ! j = evt (p ! j)" using np by simp
  {
    assume a: "i < nat n \<and> (\<forall>j < nat n. signaled (evt (p ! j)) \<longleftrightarrow> j = i)"
    then have i: "i < nat n" and one: "\<forall>j < nat n. signaled (evt (p ! j)) \<longleftrightarrow> j = i" by auto
    define millis where "millis = (if timeoutms = - 1 then INFINITE else word_of_int timeoutms)"
    have ne: "?hs \<noteq> []" using i lhs by auto
    have le: "length ?hs \<le> 64" using lhs n64' by simp
    have il: "i < length ?hs" using i lhs by simp
    have si: "signaled (?hs ! i)" using one i nth by simp
    have before: "\<forall>j < i. \<not> signaled (?hs ! j)" using one i nth by auto
    from os [unfolded os_wait_any_def, rule_format, OF conjI [OF ne le], THEN conjunct1,
        rule_format, OF il conjI [OF si before], of millis]
    have res: "wait ?hs millis = WAIT_OBJECT_0 + of_nat i" .
    have ilt: "i < 64" using i n64' by simp
    have nf: "WAIT_OBJECT_0 + of_nat i \<noteq> (WAIT_FAILED :: dword)"
    proof
      assume "WAIT_OBJECT_0 + of_nat i = (WAIT_FAILED :: dword)"
      then have "unat (of_nat i :: dword) = unat (WAIT_FAILED :: dword)"
        by (simp add: WAIT_OBJECT_0_def)
      then show False using ilt by (simp add: WAIT_FAILED_def unat_of_nat_small)
    qed
    have n0: "0 \<le> n" using i by simp
    have lt: "(WAIT_OBJECT_0 + of_nat i :: dword) < WAIT_OBJECT_0 + word_of_int n"
      using i ilt n0 n64'
      by (simp add: WAIT_OBJECT_0_def word_less_nat_alt unat_woi unat_of_nat_small)
    have ix: "unat (WAIT_OBJECT_0 + of_nat i - WAIT_OBJECT_0 :: dword) = i"
      using ilt by (simp add: unat_of_nat_small)
    have il1: "i < length p1" using i np l1 by simp
    let ?p2 = "p1[i := (p1 ! i)\<lparr>ready := True\<rparr>]"
    have "w_poll_events wait last_err e p n timeoutms = Inr (1, ?p2, e)"
      using nolog pc res nf lt il1
      by (simp add: w_poll_events_def millis_def [symmetric] ix set_ready_Inr
          unat_of_nat_small [OF ilt])
    moreover have "\<forall>j < nat n. ready (?p2 ! j) \<longleftrightarrow> j = i"
      using clr il1 by (auto simp: nth_list_update)
    ultimately show "\<exists>p'. w_poll_events wait last_err e p n timeoutms = Inr (1, p', e) \<and>
                  length p' = length p \<and> (\<forall>j < nat n. ready (p' ! j) \<longleftrightarrow> j = i)"
      using l1 by auto
  }
  {
    assume b: "1 \<le> n \<and> (\<forall>j < nat n. \<not> signaled (evt (p ! j)))"
    then have n1: "1 \<le> n" and none: "\<forall>j < nat n. \<not> signaled (evt (p ! j))" by auto
    have ne: "?hs \<noteq> []" using n1 lhs by auto
    have le: "length ?hs \<le> 64" using lhs n64' by simp
    have ns: "\<forall>h \<in> set ?hs. \<not> signaled h"
      using none nth lhs by (metis in_set_conv_nth)
    from os [unfolded os_wait_any_def, rule_format, OF conjI [OF ne le], THEN conjunct2,
        rule_format, OF conjI [OF ns refl]]
    have res: "wait ?hs 0 = WAIT_TIMEOUT \<or> wait ?hs 0 = WAIT_IO_COMPLETION" .
    have n0: "0 \<le> n" using n1 by simp
    have un: "unat (word_of_int n :: dword) = nat n" using n0 n64' by (rule unat_woi)
    have w1: "\<not> (WAIT_TIMEOUT :: dword) < WAIT_OBJECT_0 + word_of_int n"
      using n64' un by (simp add: WAIT_OBJECT_0_def WAIT_TIMEOUT_def word_less_nat_alt)
    have w2: "\<not> (WAIT_IO_COMPLETION :: dword) < WAIT_OBJECT_0 + word_of_int n"
      using n64' un by (simp add: WAIT_OBJECT_0_def WAIT_IO_COMPLETION_def word_less_nat_alt)
    have ua: "unat (WAIT_ABANDONED_0 + word_of_int n :: dword) = 128 + nat n"
      using n0 n64' un by (simp add: unat_word_ariths WAIT_ABANDONED_0_def)
    have w3: "\<not> (WAIT_TIMEOUT :: dword) < WAIT_ABANDONED_0 + word_of_int n"
      using nmax ua by (simp add: WAIT_TIMEOUT_def word_less_nat_alt MAXIMUM_WAIT_OBJECTS_def)
    have w4: "\<not> (WAIT_IO_COMPLETION :: dword) < WAIT_ABANDONED_0 + word_of_int n"
      using nmax ua by (simp add: WAIT_IO_COMPLETION_def word_less_nat_alt MAXIMUM_WAIT_OBJECTS_def)
    have f1: "(WAIT_TIMEOUT :: dword) \<noteq> WAIT_FAILED" "(WAIT_IO_COMPLETION :: dword) \<noteq> WAIT_FAILED"
      by (simp_all add: WAIT_TIMEOUT_def WAIT_IO_COMPLETION_def WAIT_FAILED_def)
    have "w_poll_events wait last_err e p n 0 = Inr (0, p1, e)"
      using res
    proof
      assume "wait ?hs 0 = WAIT_TIMEOUT"
      then show ?thesis using nolog pc w1 w3 f1 by (simp add: w_poll_events_def)
    next
      assume "wait ?hs 0 = WAIT_IO_COMPLETION"
      then show ?thesis using nolog pc w2 w4 f1 by (simp add: w_poll_events_def)
    qed
    then show "\<exists>p'. w_poll_events wait last_err e p n 0 = Inr (0, p', e) \<and>
                  length p' = length p \<and> (\<forall>j < nat n. \<not> ready (p' ! j))"
      using l1 clr by auto
  }
qed

lemma all_less_two: "(\<forall>j < (2::nat). P j) \<longleftrightarrow> P 0 \<and> P 1"
  by (auto simp: numeral_2_eq_2 All_less_Suc)

theorem poll_one_signaled_witness:
  "(\<exists>p'. w_poll_events (\<lambda>hs millis. wait_first (\<lambda>h. h = 9) hs 0) 0 EAGAIN
           [\<lparr>evt = 7, ready = True\<rparr>, \<lparr>evt = 9, ready = False\<rparr>] 2 5 = Inr (1, p', EAGAIN) \<and>
         length p' = 2 \<and> \<not> ready (p' ! 0) \<and> ready (p' ! 1)) \<and>
   (\<exists>p'. w_poll_events (\<lambda>hs millis. wait_first (\<lambda>h. False) hs 0) 0 EAGAIN
           [\<lparr>evt = 7, ready = True\<rparr>, \<lparr>evt = 9, ready = False\<rparr>] 2 0 = Inr (0, p', EAGAIN) \<and>
         length p' = 2 \<and> \<not> ready (p' ! 0) \<and> \<not> ready (p' ! 1))"
proof
  let ?p = "[\<lparr>evt = 7, ready = True\<rparr>, \<lparr>evt = 9 :: nat, ready = False\<rparr>]"
  have n: "(2::int) \<le> MAXIMUM_WAIT_OBJECTS - 1" by (simp add: MAXIMUM_WAIT_OBJECTS_def)
  have l: "nat 2 \<le> length ?p" by simp
  have one: "(1::nat) < nat 2 \<and> (\<forall>j < nat 2. (evt (?p ! j) = 9) \<longleftrightarrow> j = 1)"
    by (simp add: all_less_two)
  from poll_one_signaled [where signaled = "\<lambda>h. h = 9" and i = 1 and last_err = 0
      and e = EAGAIN and timeoutms = 5, OF os_wait_any_wait_first n l, THEN conjunct1,
      rule_format, OF one]
  show "\<exists>p'. w_poll_events (\<lambda>hs millis. wait_first (\<lambda>h. h = 9) hs 0) 0 EAGAIN ?p 2 5 =
           Inr (1, p', EAGAIN) \<and> length p' = 2 \<and> \<not> ready (p' ! 0) \<and> ready (p' ! 1)"
    by (auto simp: all_less_two)
  have none: "(1::int) \<le> 2 \<and> (\<forall>j < nat 2. \<not> False)" by simp
  from poll_one_signaled [where signaled = "\<lambda>h. False" and last_err = 0
      and e = EAGAIN, OF os_wait_any_wait_first n l, THEN conjunct2, rule_format, OF none]
  show "\<exists>p'. w_poll_events (\<lambda>hs millis. wait_first (\<lambda>h. False) hs 0) 0 EAGAIN ?p 2 0 =
           Inr (0, p', EAGAIN) \<and> length p' = 2 \<and> \<not> ready (p' ! 0) \<and> \<not> ready (p' ! 1)"
    by (auto simp: all_less_two)
qed

theorem poll_at_most_one_witness:
  "\<exists>r p' e'. w_poll_events (\<lambda>hs millis. wait_first (\<lambda>h. True) hs 0) 0 EAGAIN
        [\<lparr>evt = 7, ready = True\<rparr>, \<lparr>evt = 9, ready = True\<rparr>] 2 0 = Inr (r, p', e') \<and>
      r = 1 \<and> length p' = 2 \<and> \<not> (ready (p' ! 0) \<and> ready (p' ! 1))"
proof -
  let ?p = "[\<lparr>evt = 7, ready = True\<rparr>, \<lparr>evt = 9 :: nat, ready = True\<rparr>]"
  let ?w = "\<lambda>(hs :: nat list) (millis :: dword). wait_first (\<lambda>h. True) hs 0"
  have n: "(2::int) \<le> MAXIMUM_WAIT_OBJECTS - 1" by (simp add: MAXIMUM_WAIT_OBJECTS_def)
  have l: "nat 2 \<le> length ?p" by simp
  have z: "(0::int) \<le> 2" by simp
  from poll_at_most_one [where wait = ?w and last_err = 0 and e = EAGAIN and timeoutms = 0,
      OF z n l] obtain r p' e' where
    run: "w_poll_events ?w 0 EAGAIN ?p 2 0 = Inr (r, p', e')"
    and len: "length p' = length ?p"
    and uniq: "\<forall>j k. j < nat 2 \<and> k < nat 2 \<and> ready (p' ! j) \<and> ready (p' ! k) \<longrightarrow> j = k"
    by blast
  have "w_poll_events ?w 0 EAGAIN ?p 2 0 =
      Inr (1, [\<lparr>evt = 7, ready = True\<rparr>, \<lparr>evt = 9, ready = False\<rparr>], EAGAIN)"
    by (simp add: w_poll_events_def MAXIMUM_WAIT_OBJECTS_def poll_clear.simps set_ready_def
        WAIT_OBJECT_0_def WAIT_FAILED_def)
  with run have r: "r = 1" by simp
  from uniq have "\<not> (ready (p' ! 0) \<and> ready (p' ! 1))"
    by (metis nat_numeral numeral_2_eq_2 zero_less_Suc lessI One_nat_def zero_neq_one)
  with run r len show ?thesis by simp
qed


subsection \<open>Reading\<close>

lemma move_from_read_buffer_some:
  assumes "0 < sz" and "0 < read_avail w"
  shows "move_from_read_buffer w t buf sz =
     Inr (w\<lparr>read_buf := store_at 0
               (take (nat (read_avail w - min sz (read_avail w)))
                  (drop (read_cursor w + nat (min sz (read_avail w))) (read_buf w)))
               (read_buf w),
            read_cursor := 0,
            read_avail := read_avail w - min sz (read_avail w)\<rparr>,
          t + min sz (read_avail w),
          buf @ take (nat (min sz (read_avail w))) (drop (read_cursor w) (read_buf w)),
          sz - min sz (read_avail w))"
proof -
  from assms have pos: "0 < min sz (read_avail w)" by simp
  then have ne: "min sz (read_avail w) \<noteq> 0" and nn: "\<not> min sz (read_avail w) < 0"
    and w: "read_cursor w + nat (min sz (read_avail w)) \<noteq> 0" by auto
  show ?thesis
    unfolding move_from_read_buffer_def Let_def
    using ne nn w by simp
qed

lemma move_from_read_buffer_none:
  "sz = 0 \<or> read_avail w = 0 \<Longrightarrow> 0 \<le> sz \<Longrightarrow> 0 \<le> read_avail w \<Longrightarrow>
   move_from_read_buffer w t buf sz = Inr (w, t, buf, sz)"
  by (auto simp: move_from_read_buffer_def Let_def min_def)

text \<open>
  Claim C7. In blocking mode, when at least one byte is copied out of \<open>read_buf\<close> and
  the synchronous \<open>ReadFile\<close> for the rest of the request fails, the read returns the
  number of bytes it delivered from the buffer, with those bytes, as a success: \<open>errno\<close>
  and the sticky error are left as they were. \<open>win_read\<close> takes this path when the
  endpoint is blocking, no read is pending and no sticky error is set.
\<close>

theorem blocking_read_partial:
  assumes "0 < read_avail w" and "read_avail w < sz"
  shows "(\<exists>w'. win_read_blocking (Inl err) w sz =
            Inr (read_avail w, w',
                 take (nat (read_avail w)) (drop (read_cursor w) (read_buf w))) \<and>
          errno w' = errno w \<and> error_pending w' = error_pending w \<and> read_avail w' = 0) \<and>
         (blocking w \<and> read_pending w = None \<and> \<not> error_pending w \<longrightarrow>
            win_read olap_res c (Inl err) w sz = win_read_blocking (Inl err) w sz)"
proof
  from assms have sz: "0 < sz" and m: "min sz (read_avail w) = read_avail w" by auto
  show "\<exists>w'. win_read_blocking (Inl err) w sz =
            Inr (read_avail w, w',
                 take (nat (read_avail w)) (drop (read_cursor w) (read_buf w))) \<and>
          errno w' = errno w \<and> error_pending w' = error_pending w \<and> read_avail w' = 0"
    using assms
    by (simp add: win_read_blocking_def move_from_read_buffer_some [OF sz assms(1)] m
        os_call_def)
  show "blocking w \<and> read_pending w = None \<and> \<not> error_pending w \<longrightarrow>
            win_read olap_res c (Inl err) w sz = win_read_blocking (Inl err) w sz"
    by (simp add: win_read_def win_read_handle_completion_def)
qed

lemma move_from_read_buffer_ok:
  assumes "0 \<le> sz" and "0 \<le> read_avail w"
  shows "\<exists>w' n out. move_from_read_buffer w t buf sz = Inr (w', t + n, out, sz - n) \<and>
           0 \<le> n \<and> n \<le> sz \<and> read_avail w' = read_avail w - n \<and> n \<le> read_avail w \<and>
           error_pending w' = error_pending w \<and> errno w' = errno w \<and>
           read_pending w' = read_pending w \<and> blocking w' = blocking w"
proof (cases "sz = 0 \<or> read_avail w = 0")
  case True
  from move_from_read_buffer_none [OF True assms] assms show ?thesis
    by (intro exI [of _ w] exI [of _ 0] exI [of _ buf]) simp
next
  case False
  with assms have p: "0 < sz" "0 < read_avail w" by auto
  show ?thesis
    unfolding move_from_read_buffer_some [OF p]
    by (intro exI conjI, rule refl) (use p in simp_all)
qed

lemma win_read_non_blocking_satisfied:
  assumes nb: "\<not> blocking w" and np: "read_pending w = None" and ne: "\<not> error_pending w"
    and s1: "1 \<le> sz" and s2: "sz \<le> read_avail w"
  shows "\<exists>w'. win_read olap_res (Some a) rf w sz =
            Inr (sz, w', take (nat sz) (drop (read_cursor w) (read_buf w))) \<and>
          calls w' = calls w @ (if sz = read_avail w then [ResetEvent (waitable w)] else []) @
             [ReadFile_overlapped a (nat (read_avail w - sz))
                (word_of_int (int sizeof_read_buf - (read_avail w - sz)))] \<and>
          event_signaled w' = (if sz = read_avail w then False else event_signaled w) \<and>
          read_pending w' =
            (if rf = Inl ERROR_IO_PENDING then Some \<lparr>op_addr = a, wbuf = None\<rparr> else None)"
proof -
  from s1 s2 have p: "0 < sz" "0 < read_avail w" and m: "min sz (read_avail w) = sz" by auto
  have top: "win_read olap_res (Some a) rf w sz = win_read_non_blocking (Some a) rf w sz"
    using nb np ne by (simp add: win_read_def win_read_handle_completion_def)
  show ?thesis
  proof (cases rf)
    case (Inl err)
    show ?thesis
      unfolding top win_read_non_blocking_def move_from_read_buffer_some [OF p] m
      using Inl p s2 by (simp add: Let_def os_call_def free_def)
  next
    case (Inr d)
    show ?thesis
      unfolding top win_read_non_blocking_def move_from_read_buffer_some [OF p] m
      using Inr p s2
      by (simp add: Let_def os_call_def free_def move_from_read_buffer_def)
  qed
qed

lemma pipe_endpoint_opened:
  "w_stm_handleopen (Some 1) (Some 2) 7 FILE_TYPE_PIPE EAGAIN {} 5 = Some (1, 2, pipe_endpoint)"
  by (simp add: w_stm_handleopen_def pipe_endpoint_def INVALID_HANDLE_VALUE_def)

lemma buffered3_completed:
  "win_read_handle_completion (Inr [1, 2, 3])
     (pipe_endpoint\<lparr>read_pending := Some \<lparr>op_addr = 9, wbuf = None\<rparr>, heap := {9, 2, 1}\<rparr>) =
   (False, buffered3)"
  by (simp add: win_read_handle_completion_def buffered3_def pipe_endpoint_def free_def)

lemma buffered3_bytes: "take 3 (read_buf buffered3) = [1, 2, 3]"
  by (simp add: buffered3_def pipe_endpoint_def store_at_def sizeof_read_buf_def)

text \<open>
  Claim C1, as stated, fails. Three bytes are buffered, the endpoint is non-blocking, no
  read is pending and no error is latched; a read of three bytes returns them, and it
  also allocates a new operation, resets the event and issues an overlapped
  \<open>ReadFile\<close>, which stays pending.
\<close>

theorem non_blocking_read_issues_os_read:
  "win_read (Inl 0) (Some 9) (Inl ERROR_IO_PENDING) (buffered3\<lparr>blocking := False\<rparr>) 3 =
     Inr (3,
          buffered3\<lparr>blocking := False, read_avail := 0,
            read_pending := Some \<lparr>op_addr = 9, wbuf = None\<rparr>,
            errno := map_win32_err ERROR_IO_PENDING, event_signaled := False,
            heap := {9, 2, 1},
            calls := [ResetEvent 7, ReadFile_overlapped 9 0 8192]\<rparr>,
          [1, 2, 3])"
  by (simp add: win_read_def win_read_handle_completion_def win_read_non_blocking_def
      move_from_read_buffer_def buffered3_def pipe_endpoint_def store_at_def os_call_def
      Let_def sizeof_read_buf_def)

text \<open>
  Claim C1, amended. A non-blocking read of at least one byte that the buffered bytes
  satisfy in full (no read pending, no sticky error, \<open>calloc\<close> succeeding) returns the
  requested count with the first bytes of the buffer, and it always issues one overlapped
  \<open>ReadFile\<close> into the free tail of \<open>read_buf\<close> on a new operation, which stays
  pending exactly when the operating system reports \<open>ERROR_IO_PENDING\<close>. The event is
  reset exactly when the read drained the buffer.
\<close>

theorem non_blocking_read_satisfied:
  assumes "\<not> blocking w" and "read_pending w = None" and "\<not> error_pending w"
    and "1 \<le> sz" and "sz \<le> read_avail w"
  shows "\<exists>w'. win_read olap_res (Some a) rf w sz =
            Inr (sz, w', take (nat sz) (drop (read_cursor w) (read_buf w))) \<and>
          calls w' = calls w @ (if sz = read_avail w then [ResetEvent (waitable w)] else []) @
             [ReadFile_overlapped a (nat (read_avail w - sz))
                (word_of_int (int sizeof_read_buf - (read_avail w - sz)))] \<and>
          event_signaled w' = (if sz = read_avail w then False else event_signaled w) \<and>
          read_pending w' =
            (if rf = Inl ERROR_IO_PENDING then Some \<lparr>op_addr = a, wbuf = None\<rparr> else None)"
  using assms by (rule win_read_non_blocking_satisfied)

theorem non_blocking_read_satisfied_witness:
  "\<exists>w'. win_read (Inl 0) (Some 9) (Inr [4]) (buffered3\<lparr>blocking := False\<rparr>) 2 =
            Inr (2, w', [1, 2]) \<and>
        calls w' = [ReadFile_overlapped 9 1 8191] \<and> event_signaled w' \<and>
        read_pending w' = None"
proof -
  let ?w = "buffered3\<lparr>blocking := False\<rparr>"
  have h: "\<not> blocking ?w" "read_pending ?w = None" "\<not> error_pending ?w"
    "(1::int) \<le> 2" "2 \<le> read_avail ?w"
    by (simp_all add: buffered3_def pipe_endpoint_def)
  from non_blocking_read_satisfied [OF h, of "Inl 0" 9 "Inr [4]"]
  show ?thesis
    by (auto simp: buffered3_def pipe_endpoint_def store_at_def sizeof_read_buf_def)
qed

theorem blocking_read_partial_witness:
  "\<exists>w'. win_read (Inl 0) None (Inl 109) buffered3 5 = Inr (3, w', [1, 2, 3]) \<and>
        errno w' = EAGAIN \<and> \<not> error_pending w'"
proof -
  have h: "0 < read_avail buffered3" "read_avail buffered3 < 5"
    by (simp_all add: buffered3_def)
  have b: "blocking buffered3 \<and> read_pending buffered3 = None \<and> \<not> error_pending buffered3"
    by (simp add: buffered3_def pipe_endpoint_def)
  from blocking_read_partial [OF h, of 109 "Inl 0" None] b
  obtain w' where "win_read (Inl 0) None (Inl 109) buffered3 5 =
      Inr (read_avail buffered3, w',
           take (nat (read_avail buffered3)) (drop (read_cursor buffered3) (read_buf buffered3)))"
    and "errno w' = errno buffered3" and "error_pending w' = error_pending buffered3"
    by auto
  then show ?thesis
    by (auto simp: buffered3_def pipe_endpoint_def store_at_def sizeof_read_buf_def)
qed

text \<open>
  Claim C2. With the sticky error set and no read pending, \<open>win_read\<close> returns \<open>-1\<close>
  with \<open>errno\<close> mapped from the latched \<open>errcode\<close>, clears \<open>error_pending\<close> and
  changes nothing else. The read after it does not report that error again: when its own
  \<open>ReadFile\<close> succeeds it returns a count and leaves no error pending, and when it
  returns \<open>-1\<close> after its own \<open>ReadFile\<close> failed, \<open>errno\<close> is mapped from that new
  error.
\<close>

theorem sticky_error_once:
  assumes ep: "error_pending w" and np: "read_pending w = None"
    and av: "0 \<le> read_avail w" and sz2: "0 \<le> sz2"
  shows "win_read olap1 c1 rf1 w sz1 =
           Inr (- 1, w\<lparr>errno := map_win32_err (errcode w), error_pending := False\<rparr>, []) \<and>
         (\<exists>r w2 out.
            win_read olap2 (Some a) (Inr d)
              (w\<lparr>errno := map_win32_err (errcode w), error_pending := False\<rparr>) sz2 =
              Inr (r, w2, out) \<and> 0 \<le> r \<and> \<not> error_pending w2) \<and>
         (\<forall>r w2 out err.
            win_read olap2 c2 (Inl err)
              (w\<lparr>errno := map_win32_err (errcode w), error_pending := False\<rparr>) sz2 =
              Inr (r, w2, out) \<and> r = - 1 \<longrightarrow> errno w2 = map_win32_err err)"
proof (intro conjI)
  let ?w1 = "w\<lparr>errno := map_win32_err (errcode w), error_pending := False\<rparr>"
  show "win_read olap1 c1 rf1 w sz1 = Inr (- 1, ?w1, [])"
    using ep np by (simp add: win_read_def win_read_handle_completion_def)
  have av1: "0 \<le> read_avail ?w1" using av by simp
  from move_from_read_buffer_ok [OF sz2 av1, of 0 "[]"] obtain w' n out where
    mv: "move_from_read_buffer ?w1 0 [] sz2 = Inr (w', 0 + n, out, sz2 - n)"
    and n: "0 \<le> n" "n \<le> sz2" and ra: "read_avail w' = read_avail ?w1 - n"
    and nl: "n \<le> read_avail ?w1"
    and e': "error_pending w' = error_pending ?w1" by blast
  have top: "\<And>c rf. win_read olap2 c rf ?w1 sz2 =
      (if blocking w then win_read_blocking rf ?w1 sz2 else win_read_non_blocking c rf ?w1 sz2)"
    using np by (simp add: win_read_def win_read_handle_completion_def)
  show "\<exists>r w2 out. win_read olap2 (Some a) (Inr d) ?w1 sz2 = Inr (r, w2, out) \<and>
          0 \<le> r \<and> \<not> error_pending w2"
  proof (cases "blocking w")
    case True
    then show ?thesis
      unfolding top using mv n e' by (simp add: win_read_blocking_def os_call_def)
  next
    case False
    have "\<exists>v. win_read_non_blocking (Some a) (Inr d) ?w1 sz2 =
            (case move_from_read_buffer v n out (sz2 - n) of
               Inl f \<Rightarrow> Inl f
             | Inr (w6, t', b', s') \<Rightarrow> Inr (t', w6, b')) \<and>
          0 \<le> read_avail v \<and> \<not> error_pending v"
      apply (simp add: win_read_non_blocking_def mv Let_def split del: if_split)
      apply (intro exI conjI)
        apply (rule refl)
      using ra nl e' av apply (simp_all add: free_def os_call_def)
      done
    then obtain v where
      run: "win_read_non_blocking (Some a) (Inr d) ?w1 sz2 =
            (case move_from_read_buffer v n out (sz2 - n) of
               Inl f \<Rightarrow> Inl f
             | Inr (w6, t', b', s') \<Rightarrow> Inr (t', w6, b'))"
      and a5: "0 \<le> read_avail v" and e5: "\<not> error_pending v" by blast
    have s5: "0 \<le> sz2 - n" using n by simp
    from move_from_read_buffer_ok [OF s5 a5, of n out] obtain w6 k out6 where
      mv6: "move_from_read_buffer v n out (sz2 - n) = Inr (w6, n + k, out6, sz2 - n - k)"
      and k: "0 \<le> k" and e6: "error_pending w6 = error_pending v" by blast
    have "win_read_non_blocking (Some a) (Inr d) ?w1 sz2 = Inr (n + k, w6, out6)"
      unfolding run mv6 by simp
    then show ?thesis unfolding top using False n k e6 e5 by simp
  qed
  show "\<forall>r w2 out err. win_read olap2 c2 (Inl err) ?w1 sz2 = Inr (r, w2, out) \<and> r = - 1 \<longrightarrow>
          errno w2 = map_win32_err err"
  proof (intro allI impI)
    fix r w2 out' err
    assume h: "win_read olap2 c2 (Inl err) ?w1 sz2 = Inr (r, w2, out') \<and> r = - 1"
    show "errno w2 = map_win32_err err"
    proof (cases "blocking w")
      case True
      with h show ?thesis
        unfolding top using mv n
        by (auto simp: win_read_blocking_def os_call_def Let_def split: if_splits)
    next
      case False
      with h show ?thesis
        unfolding top using mv
        by (auto simp: win_read_non_blocking_def os_call_def Let_def free_def
            split: if_splits option.splits)
    qed
  qed
qed

lemma write_failed_reached:
  "win_write (Inr 0) (Some 10) (Some 11) True pipe_endpoint [65] 1 =
     Inr (1, pipe_endpoint\<lparr>
               write_pending := Some \<lparr>op_addr = 11,
                  wbuf = Some \<lparr>wb_addr = 10, len = 1, cursor = 0, data = [65]\<rparr>\<rparr>,
               heap := {11, 10, 2, 1}, calls := [WriteFileEx 11 10 0 1]\<rparr>)"
  "write_completed 109 0
     \<lparr>op_addr = 11, wbuf = Some \<lparr>wb_addr = 10, len = 1, cursor = 0, data = [65]\<rparr>\<rparr> None True
     (pipe_endpoint\<lparr>
               write_pending := Some \<lparr>op_addr = 11,
                  wbuf = Some \<lparr>wb_addr = 10, len = 1, cursor = 0, data = [65]\<rparr>\<rparr>,
               heap := {11, 10, 2, 1}, calls := [WriteFileEx 11 10 0 1]\<rparr>) =
     Inr write_failed"
  by (simp_all add: win_write_def initiate_write_def write_completed_def write_failed_def
      pipe_endpoint_def os_call_def free_def Let_def FILE_TYPE_PIPE_def)

theorem sticky_error_once_witness:
  "win_read (Inl 0) None (Inl 0) write_failed 0 =
     Inr (- 1, write_failed\<lparr>errno := map_win32_err 109, error_pending := False\<rparr>, []) \<and>
   (\<exists>r w2 out.
      win_read (Inl 0) (Some 12) (Inr [4, 5])
        (write_failed\<lparr>errno := map_win32_err 109, error_pending := False\<rparr>) 2 =
        Inr (r, w2, out) \<and> 0 \<le> r \<and> \<not> error_pending w2)"
proof -
  have h: "error_pending write_failed" "read_pending write_failed = None"
    "0 \<le> read_avail write_failed" "(0::int) \<le> 2"
    by (simp_all add: write_failed_def pipe_endpoint_def)
  have c: "errcode write_failed = 109" by (simp add: write_failed_def)
  from sticky_error_once [OF h, of "Inl 0" None "Inl 0" 0 "Inl 0" 12 "[4, 5]"]
  show ?thesis unfolding c by blast
qed


subsection \<open>Writing and closing\<close>

lemma win_write_queued_path:
  assumes q: "\<not> (file_type w \<noteq> FILE_TYPE_PIPE \<and> blocking w \<and> write_head w = [])"
    and sz: "0 \<le> sz" "sz \<le> int (length buf)"
  shows "win_write wr (Some a) c submitted w buf sz =
     (let b = \<lparr>wb_addr = a, len = sz, cursor = 0, data = take (nat sz) buf\<rparr>;
          w1 = w\<lparr>write_head := write_head w @ [b], heap := insert a (heap w)\<rparr>
      in if write_pending w = None
         then (case initiate_write c submitted w1 of Inl f \<Rightarrow> Inl f | Inr w2 \<Rightarrow> Inr (sz, w2))
         else Inr (sz, w1))"
  using q sz by (auto simp: win_write_def Let_def)

text \<open>
  Claim C8. A \<open>win_write\<close> that takes the queued path with \<open>malloc\<close> succeeding
  returns \<open>size\<close>, having copied the first \<open>size\<close> bytes of the caller's buffer into
  the new block and appended it to the queue. With a write in flight the buffer stays at
  the tail. With none in flight \<open>initiate_write\<close> then takes the head of that queue
  (the new buffer when the queue was empty) and hands its block to \<open>WriteFileEx\<close>. The
  bytes of the caller's buffer beyond \<open>size\<close> take no part, and what the operating system
  is handed is the queue's block, so nothing refers to the caller's buffer afterwards.
\<close>

theorem win_write_queued:
  assumes q: "\<not> (file_type w \<noteq> FILE_TYPE_PIPE \<and> blocking w \<and> write_head w = [])"
    and sz: "0 \<le> sz" "sz \<le> int (length buf)"
  shows "(let b = \<lparr>wb_addr = a, len = sz, cursor = 0, data = take (nat sz) buf\<rparr>;
              q1 = write_head w @ [b]
          in (write_pending w \<noteq> None \<longrightarrow>
                win_write wr (Some a) c submitted w buf sz =
                  Inr (sz, w\<lparr>write_head := q1, heap := insert a (heap w)\<rparr>)) \<and>
             (write_pending w = None \<longrightarrow>
                (\<exists>w'. win_write wr (Some a) (Some a') submitted w buf sz = Inr (sz, w') \<and>
                   write_head w' = tl q1 \<and>
                   calls w' = calls w @ [WriteFileEx a' (wb_addr (hd q1)) (cursor (hd q1)) (len (hd q1))] \<and>
                   write_pending w' =
                     (if submitted then Some \<lparr>op_addr = a', wbuf = Some (hd q1)\<rparr> else None) \<and>
                   (write_head w = [] \<longrightarrow> hd q1 = b) \<and>
                   (write_head w \<noteq> [] \<longrightarrow> last (write_head w') = b)))) \<and>
         win_write wr (Some a) c submitted w (take (nat sz) buf) sz =
           win_write wr (Some a) c submitted w buf sz"
proof (intro conjI)
  let ?b = "\<lparr>wb_addr = a, len = sz, cursor = 0, data = take (nat sz) buf\<rparr>"
  let ?q1 = "write_head w @ [?b]"
  let ?w1 = "w\<lparr>write_head := ?q1, heap := insert a (heap w)\<rparr>"
  have ne: "?q1 \<noteq> []" by simp
  then obtain x xs where xs: "?q1 = x # xs" by (cases ?q1) auto
  have l: "write_head w \<noteq> [] \<Longrightarrow> last xs = ?b"
    using xs by (cases "write_head w") auto
  have e: "write_head w = [] \<Longrightarrow> x = ?b" using xs by simp
  have pend: "write_pending w \<noteq> None \<longrightarrow>
        win_write wr (Some a) c submitted w buf sz = Inr (sz, ?w1)"
    by (simp add: win_write_queued_path [OF q sz] Let_def)
  have idle: "write_pending w = None \<longrightarrow>
        (\<exists>w'. win_write wr (Some a) (Some a') submitted w buf sz = Inr (sz, w') \<and>
           write_head w' = tl ?q1 \<and>
           calls w' = calls w @ [WriteFileEx a' (wb_addr (hd ?q1)) (cursor (hd ?q1)) (len (hd ?q1))] \<and>
           write_pending w' =
             (if submitted then Some \<lparr>op_addr = a', wbuf = Some (hd ?q1)\<rparr> else None) \<and>
           (write_head w = [] \<longrightarrow> hd ?q1 = ?b) \<and>
           (write_head w \<noteq> [] \<longrightarrow> last (write_head w') = ?b))"
  proof
    assume np: "write_pending w = None"
    have "\<exists>w'. initiate_write (Some a') submitted ?w1 = Inr w' \<and> write_head w' = xs \<and>
        calls w' = calls w @ [WriteFileEx a' (wb_addr x) (cursor x) (len x)] \<and>
        write_pending w' = (if submitted then Some \<lparr>op_addr = a', wbuf = Some x\<rparr> else None)"
      using np xs by (simp add: initiate_write_def Let_def os_call_def free_def)
    then obtain w' where i: "initiate_write (Some a') submitted ?w1 = Inr w'"
      and h: "write_head w' = xs"
      and cl: "calls w' = calls w @ [WriteFileEx a' (wb_addr x) (cursor x) (len x)]"
      and wp: "write_pending w' = (if submitted then Some \<lparr>op_addr = a', wbuf = Some x\<rparr> else None)"
      by blast
    have "win_write wr (Some a) (Some a') submitted w buf sz = Inr (sz, w')"
      using np i by (simp add: win_write_queued_path [OF q sz] Let_def)
    then show "\<exists>w'. win_write wr (Some a) (Some a') submitted w buf sz = Inr (sz, w') \<and>
           write_head w' = tl ?q1 \<and>
           calls w' = calls w @ [WriteFileEx a' (wb_addr (hd ?q1)) (cursor (hd ?q1)) (len (hd ?q1))] \<and>
           write_pending w' =
             (if submitted then Some \<lparr>op_addr = a', wbuf = Some (hd ?q1)\<rparr> else None) \<and>
           (write_head w = [] \<longrightarrow> hd ?q1 = ?b) \<and>
           (write_head w \<noteq> [] \<longrightarrow> last (write_head w') = ?b)"
      using h cl wp l e unfolding xs by auto
  qed
  show "let b = ?b; q1 = write_head w @ [b]
          in (write_pending w \<noteq> None \<longrightarrow>
                win_write wr (Some a) c submitted w buf sz =
                  Inr (sz, w\<lparr>write_head := q1, heap := insert a (heap w)\<rparr>)) \<and>
             (write_pending w = None \<longrightarrow>
                (\<exists>w'. win_write wr (Some a) (Some a') submitted w buf sz = Inr (sz, w') \<and>
                   write_head w' = tl q1 \<and>
                   calls w' = calls w @ [WriteFileEx a' (wb_addr (hd q1)) (cursor (hd q1)) (len (hd q1))] \<and>
                   write_pending w' =
                     (if submitted then Some \<lparr>op_addr = a', wbuf = Some (hd q1)\<rparr> else None) \<and>
                   (write_head w = [] \<longrightarrow> hd q1 = b) \<and>
                   (write_head w \<noteq> [] \<longrightarrow> last (write_head w') = b)))"
    unfolding Let_def using pend idle by (rule conjI)
  have sz': "sz \<le> int (length (take (nat sz) buf))" using sz by simp
  show "win_write wr (Some a) c submitted w (take (nat sz) buf) sz =
           win_write wr (Some a) c submitted w buf sz"
    by (simp add: win_write_queued_path [OF q sz] win_write_queued_path [OF q sz(1) sz'])
qed

theorem win_write_queued_witness:
  "win_write (Inr 0) (Some 101) None True writing_A [66, 99] 1 =
     Inr (1, writing_A\<lparr>write_head := [buf_B], heap := insert 101 (heap writing_A)\<rparr>) \<and>
   (\<exists>w'. win_write (Inr 0) (Some 100) (Some 200) True pipe_endpoint [65] 1 = Inr (1, w') \<and>
      write_head w' = [] \<and> calls w' = [WriteFileEx 200 100 0 1] \<and>
      write_pending w' = Some \<lparr>op_addr = 200, wbuf = Some buf_A\<rparr>)"
proof
  have q: "\<not> (file_type writing_A \<noteq> FILE_TYPE_PIPE \<and> blocking writing_A \<and>
      write_head writing_A = [])"
    by (simp add: writing_A_def pipe_endpoint_def)
  have p: "write_pending writing_A \<noteq> None" by (simp add: writing_A_def)
  have sz: "(0::int) \<le> 1" "1 \<le> int (length [66 :: byte, 99])" by simp_all
  from win_write_queued [where a = 101 and wr = "Inr 0" and c = None and submitted = True,
      OF q sz, unfolded Let_def,
      THEN conjunct1, THEN conjunct1, rule_format, OF p]
  show "win_write (Inr 0) (Some 101) None True writing_A [66, 99] 1 =
     Inr (1, writing_A\<lparr>write_head := [buf_B], heap := insert 101 (heap writing_A)\<rparr>)"
    by (simp add: buf_B_def writing_A_def pipe_endpoint_def)
  have q0: "\<not> (file_type pipe_endpoint \<noteq> FILE_TYPE_PIPE \<and> blocking pipe_endpoint \<and>
      write_head pipe_endpoint = [])"
    by (simp add: pipe_endpoint_def)
  have p0: "write_pending pipe_endpoint = None" by (simp add: pipe_endpoint_def)
  have sz0: "(0::int) \<le> 1" "1 \<le> int (length [65 :: byte])" by simp_all
  from win_write_queued [where a = 100 and wr = "Inr 0" and a' = 200 and submitted = True,
      OF q0 sz0, unfolded Let_def,
      THEN conjunct1, THEN conjunct2, rule_format, OF p0]
  show "\<exists>w'. win_write (Inr 0) (Some 100) (Some 200) True pipe_endpoint [65] 1 = Inr (1, w') \<and>
      write_head w' = [] \<and> calls w' = [WriteFileEx 200 100 0 1] \<and>
      write_pending w' = Some \<lparr>op_addr = 200, wbuf = Some buf_A\<rparr>"
    by (auto simp: buf_A_def pipe_endpoint_def)
qed

text \<open>
  Three one-byte writes on a pipe, then a shutdown during whose wait the first write
  completes and the submission of the second fails.
\<close>

lemma stalled_C_reached:
  "win_write (Inr 0) (Some 100) (Some 200) True pipe_endpoint [65] 1 = Inr (1, writing_A)"
  "win_write (Inr 0) (Some 101) None True writing_A [66] 1 =
     Inr (1, writing_A\<lparr>write_head := [buf_B], heap := {101, 200, 100, 2, 1}\<rparr>)"
  "win_write (Inr 0) (Some 102) None True
     (writing_A\<lparr>write_head := [buf_B], heap := {101, 200, 100, 2, 1}\<rparr>) [67] 1 =
     Inr (1, queued_BC)"
  "win_shutdown [Some (0, 1, Some 201, False)] queued_BC = Some (Inr (True, stalled_C))"
  by (auto simp: win_write_def initiate_write_def write_completed_def win_shutdown_def
      writing_A_def queued_BC_def stalled_C_def buf_A_def buf_B_def buf_C_def
      pipe_endpoint_def os_call_def free_def Let_def FILE_TYPE_PIPE_def insert_Diff_if)

text \<open>
  Claim C3 fails on the code. \<open>stalled_C\<close> is reached by three writes and a shutdown
  (\<open>stalled_C_reached\<close>): no write is in flight and the buffer at address 102 is still
  queued. \<open>win_close\<close> then skips the loop that frees the queue, which stands inside
  \<open>if (h->write_pending)\<close>: the block 102 is still allocated after the close.
\<close>

theorem close_leaks_queued_buffer:
  "win_close False False 2 stalled_C =
     (0, None, stalled_C\<lparr>hnd := INVALID_HANDLE_VALUE, heap := {102, 101, 1},
                 calls := calls stalled_C @ [CloseHandle 5, CloseHandle 7]\<rparr>)"
  by (auto simp: win_close_def stalled_C_def pipe_endpoint_def os_call_def free_def Let_def
      INVALID_HANDLE_VALUE_def insert_Diff_if)

text \<open>
  With a write in flight the loop runs, and hands \<open>free\<close> the address of the \<open>data\<close>
  member of every queued buffer before the buffer itself; the buffer in flight (block 100)
  is not freed.
\<close>

lemma close_frees_data_member:
  "win_close False True 2 queued_BC =
     (0, None, queued_BC\<lparr>write_pending := None, write_head := [],
                 hnd := INVALID_HANDLE_VALUE, heap := {100, 1},
                 invalid_frees := [Data_member 101, Data_member 102],
                 calls := calls queued_BC @ [CancelIoEx 200, CloseHandle 5, CloseHandle 7]\<rparr>)"
  by (auto simp: win_close_def queued_BC_def writing_A_def pipe_endpoint_def os_call_def
      free_def Let_def INVALID_HANDLE_VALUE_def buf_B_def buf_C_def insert_Diff_if)


text \<open>
  In general: with no write in flight \<open>win_close\<close> leaves the queue as it is and frees
  none of its buffers.
\<close>

lemma win_close_idle_keeps_queue:
  assumes idle: "write_pending w = None"
    and b: "b \<in> set (write_head w)" and live: "wb_addr b \<in> heap w"
    and self: "wb_addr b \<noteq> self"
    and rd: "\<forall>rp. read_pending w = Some rp \<longrightarrow> wb_addr b \<noteq> op_addr rp"
  shows "write_head (snd (snd (win_close cancel_read cancel_write self w))) = write_head w \<and>
         wb_addr b \<in> heap (snd (snd (win_close cancel_read cancel_write self w)))"
  using assms
  by (auto simp: win_close_def Let_def os_call_def free_def split: option.splits)

subsection \<open>Connecting and opening\<close>

text \<open>
  The accounting on a timeout of 100 ms started at tick 1000 (deadline 1100): before the
  deadline the difference \<open>now - deadline\<close> is negative, so the time left grows.
\<close>

lemma time_left_grows: "sint (time_left 100 1100 1000) = 200"
  "sint (time_left 200 1100 1150) = 150" "sint (time_left 150 1100 1500) = - 250"
  by (simp_all add: time_left_def)

text \<open>
  Claim C4, as stated, fails. A pipe that is never there, a timeout of 100 ms, the clock at
  1000 on entry: after the first failed open the time left is 200, not less than 100; at
  tick 1150, 50 ms past the deadline, the call is still retrying; and when it gives up at
  tick 1500 \<open>errno\<close> is mapped from \<open>ERROR_FILE_NOT_FOUND\<close>, the error of the open, not
  from a timeout code.
\<close>

theorem connect_out_of_time_not_timeout:
  "w_stm_connect_named_pipe None None 0 0 EAGAIN {} 1000
     [not_found 1000, not_found 1150, not_found 1500] ''pipe'' 100 =
     Some (None, map_win32_err ERROR_FILE_NOT_FOUND) \<and>
   w_stm_connect_named_pipe None None 0 0 EAGAIN {} 1000
     [not_found 1000, not_found 1150] ''pipe'' 100 = None \<and>
   sint (100 :: dword) = 100 \<and>
   sint (time_left 100 (1000 + scast (100 :: dword)) 1000) = 200"
  by (simp add: w_stm_connect_named_pipe_def not_found_def time_left_def
      ERROR_FILE_NOT_FOUND_def ERROR_PIPE_BUSY_def ERROR_SEM_TIMEOUT_def)

lemma retry_connect_fails:
  "\<forall>a \<in> set as. create_file a = INVALID_HANDLE_VALUE \<Longrightarrow>
   retry_connect cs ch ev ft e hp path t d as = Some r \<Longrightarrow>
   fst r = None \<and>
   (snd r = map_win32_err ERROR_SEM_TIMEOUT \<and>
      (\<exists>a \<in> set as. wait_pipe a = Some ERROR_SEM_TIMEOUT) \<or>
    (\<exists>a \<in> set as. snd r = map_win32_err (last_error a)))"
proof (induction as arbitrary: t)
  case Nil
  then show ?case by simp
next
  case (Cons a as)
  from Cons.prems(1) have inv: "create_file a = INVALID_HANDLE_VALUE"
    and rest: "\<forall>a \<in> set as. create_file a = INVALID_HANDLE_VALUE" by auto
  let ?t1 = "time_left t d (tick a)"
  consider (stop) "sint ?t1 \<le> 0 \<or>
        (last_error a \<noteq> ERROR_PIPE_BUSY \<and> last_error a \<noteq> ERROR_FILE_NOT_FOUND)"
    | (timed_out) "\<not> (sint ?t1 \<le> 0 \<or>
        (last_error a \<noteq> ERROR_PIPE_BUSY \<and> last_error a \<noteq> ERROR_FILE_NOT_FOUND))"
        "wait_pipe a = Some ERROR_SEM_TIMEOUT"
    | (again) "\<not> (sint ?t1 \<le> 0 \<or>
        (last_error a \<noteq> ERROR_PIPE_BUSY \<and> last_error a \<noteq> ERROR_FILE_NOT_FOUND))"
        "wait_pipe a \<noteq> Some ERROR_SEM_TIMEOUT"
    by blast
  then show ?case
  proof cases
    case stop
    with inv Cons.prems(2) have "r = (None, map_win32_err (last_error a))"
      by (auto simp: Let_def)
    then show ?thesis by simp
  next
    case timed_out
    with inv Cons.prems(2) have "r = (None, map_win32_err ERROR_SEM_TIMEOUT)"
      by (auto simp: Let_def)
    with timed_out(2) show ?thesis by simp
  next
    case again
    with inv Cons.prems(2) have "retry_connect cs ch ev ft e hp path ?t1 d as = Some r"
      by (auto simp: Let_def split: option.splits if_splits)
    from Cons.IH [OF rest this] show ?thesis by auto
  qed
qed

lemma retry_connect_returns:
  "\<exists>a \<in> set as. wait_pipe a = Some ERROR_SEM_TIMEOUT \<or>
      (last_error a \<noteq> ERROR_PIPE_BUSY \<and> last_error a \<noteq> ERROR_FILE_NOT_FOUND) \<Longrightarrow>
   retry_connect cs ch ev ft e hp path t d as \<noteq> None"
proof (induction as arbitrary: t)
  case Nil
  then show ?case by simp
next
  case (Cons a as)
  show ?case
  proof (cases "wait_pipe a = Some ERROR_SEM_TIMEOUT \<or>
      (last_error a \<noteq> ERROR_PIPE_BUSY \<and> last_error a \<noteq> ERROR_FILE_NOT_FOUND)")
    case True
    then show ?thesis by (auto simp: Let_def split: option.splits)
  next
    case False
    with Cons.prems have "\<exists>a \<in> set as. wait_pipe a = Some ERROR_SEM_TIMEOUT \<or>
      (last_error a \<noteq> ERROR_PIPE_BUSY \<and> last_error a \<noteq> ERROR_FILE_NOT_FOUND)" by auto
    from Cons.IH [OF this] show ?thesis
      by (auto simp: Let_def split: option.splits)
  qed
qed

text \<open>
  Claim C4, amended. Against an endpoint that never becomes available (every
  \<open>CreateFile\<close> fails) and a path within the limit, the call never returns a stream; when
  it returns, \<open>errno\<close> is mapped from \<open>ERROR_SEM_TIMEOUT\<close>, which a bounded wait for the
  pipe then reported, or from the error of a failed open. It does return once a wait
  reports the timeout or an open fails with an error other than busy and not-found, and it
  returns at the first failed open, with that open's error, when the time allowed is not
  positive. How the time left evolves between retries is not part of the statement.
\<close>

theorem connect_never_available:
  assumes len: "length path \<le> 255"
    and never: "\<forall>a \<in> set attempts. create_file a = INVALID_HANDLE_VALUE"
  shows "(\<forall>r. w_stm_connect_named_pipe cs ch ev ft e hp start attempts path timeoutms = Some r \<longrightarrow>
            fst r = None \<and>
            (snd r = map_win32_err ERROR_SEM_TIMEOUT \<and>
               (\<exists>a \<in> set attempts. wait_pipe a = Some ERROR_SEM_TIMEOUT) \<or>
             (\<exists>a \<in> set attempts. snd r = map_win32_err (last_error a)))) \<and>
         ((\<exists>a \<in> set attempts. wait_pipe a = Some ERROR_SEM_TIMEOUT \<or>
              (last_error a \<noteq> ERROR_PIPE_BUSY \<and> last_error a \<noteq> ERROR_FILE_NOT_FOUND)) \<longrightarrow>
            w_stm_connect_named_pipe cs ch ev ft e hp start attempts path timeoutms \<noteq> None) \<and>
         (\<forall>a rest. attempts = a # rest \<and> sint timeoutms \<le> 0 \<longrightarrow>
            w_stm_connect_named_pipe cs ch ev ft e hp start attempts path timeoutms =
              Some (None, map_win32_err (last_error a)))"
proof -
  have run: "w_stm_connect_named_pipe cs ch ev ft e hp start attempts path timeoutms =
      retry_connect cs ch ev ft e hp path timeoutms (start + scast timeoutms) attempts"
    using len by (simp add: w_stm_connect_named_pipe_def)
  show ?thesis
    unfolding run
  proof (intro conjI allI impI)
    fix r
    assume "retry_connect cs ch ev ft e hp path timeoutms (start + scast timeoutms) attempts = Some r"
    from retry_connect_fails [OF never this]
    show "fst r = None"
      and "snd r = map_win32_err ERROR_SEM_TIMEOUT \<and>
             (\<exists>a \<in> set attempts. wait_pipe a = Some ERROR_SEM_TIMEOUT) \<or>
           (\<exists>a \<in> set attempts. snd r = map_win32_err (last_error a))" by auto
  next
    assume "\<exists>a \<in> set attempts. wait_pipe a = Some ERROR_SEM_TIMEOUT \<or>
              (last_error a \<noteq> ERROR_PIPE_BUSY \<and> last_error a \<noteq> ERROR_FILE_NOT_FOUND)"
    then show "retry_connect cs ch ev ft e hp path timeoutms (start + scast timeoutms) attempts \<noteq> None"
      by (rule retry_connect_returns)
  next
    fix a rest
    assume h: "attempts = a # rest \<and> sint timeoutms \<le> 0"
    with never have "create_file a = INVALID_HANDLE_VALUE" by simp
    with h show "retry_connect cs ch ev ft e hp path timeoutms (start + scast timeoutms) attempts =
        Some (None, map_win32_err (last_error a))"
      by (simp add: time_left_def Let_def)
  qed
qed

theorem connect_never_available_witness:
  "w_stm_connect_named_pipe None None 0 0 EAGAIN {} 1000 [busy_timed_out 1010] ''pipe'' 100 \<noteq> None \<and>
   (\<exists>e'. w_stm_connect_named_pipe None None 0 0 EAGAIN {} 1000 [busy_timed_out 1010] ''pipe'' 100 =
      Some (None, e') \<and>
      (e' = map_win32_err ERROR_SEM_TIMEOUT \<or> e' = map_win32_err ERROR_PIPE_BUSY)) \<and>
   w_stm_connect_named_pipe None None 0 0 EAGAIN {} 1000 [busy_timed_out 1010] ''pipe'' 0 =
     Some (None, map_win32_err ERROR_PIPE_BUSY)"
proof -
  let ?as = "[busy_timed_out 1010]"
  have l: "length ''pipe'' \<le> 255" by simp
  have n: "\<forall>a \<in> set ?as. create_file a = INVALID_HANDLE_VALUE"
    by (simp add: busy_timed_out_def)
  have t: "\<exists>a \<in> set ?as. wait_pipe a = Some ERROR_SEM_TIMEOUT \<or>
              (last_error a \<noteq> ERROR_PIPE_BUSY \<and> last_error a \<noteq> ERROR_FILE_NOT_FOUND)"
    by (simp add: busy_timed_out_def)
  have z: "?as = busy_timed_out 1010 # [] \<and> sint (0 :: dword) \<le> 0" by simp
  note inst = connect_never_available [OF l n, of None None 0 0 EAGAIN "{}" 1000]
  from inst [of 100, THEN conjunct2, THEN conjunct1, rule_format, OF t]
  have r: "w_stm_connect_named_pipe None None 0 0 EAGAIN {} 1000 ?as ''pipe'' 100 \<noteq> None" .
  then obtain x where x: "w_stm_connect_named_pipe None None 0 0 EAGAIN {} 1000 ?as ''pipe'' 100 = Some x"
    by auto
  from inst [of 100, THEN conjunct1, rule_format, OF x]
  have "fst x = None" and "snd x = map_win32_err ERROR_SEM_TIMEOUT \<or> snd x = map_win32_err ERROR_PIPE_BUSY"
    by (auto simp: busy_timed_out_def)
  with x have e: "\<exists>e'. w_stm_connect_named_pipe None None 0 0 EAGAIN {} 1000 ?as ''pipe'' 100 =
      Some (None, e') \<and>
      (e' = map_win32_err ERROR_SEM_TIMEOUT \<or> e' = map_win32_err ERROR_PIPE_BUSY)"
    by (cases x) auto
  from inst [of 0, THEN conjunct2, THEN conjunct2, rule_format, OF z]
  have "w_stm_connect_named_pipe None None 0 0 EAGAIN {} 1000 ?as ''pipe'' 0 =
     Some (None, map_win32_err ERROR_PIPE_BUSY)"
    by (simp add: busy_timed_out_def)
  with r e show ?thesis by blast
qed

text \<open>
  Claim C10. \<open>w_handle_open\<close> on the path \<open>/dev/null\<close> does what it does on \<open>NUL:\<close>:
  the path is replaced before it is converted, the name handed to \<open>CreateFileW\<close> is the
  conversion of \<open>NUL:\<close>, and the handle returned is the one that open gives, so the
  call succeeds whenever the operating system opens its null device.
\<close>

theorem dev_null_opens_nul:
  "w_handle_open fl to_unc CreateFileW e ''/dev/null'' flags =
     w_handle_open fl to_unc CreateFileW e ''NUL:'' flags \<and>
   (to_unc ''NUL:'' = Some wpath \<longrightarrow>
      w_handle_open fl to_unc CreateFileW e ''/dev/null'' flags =
        (fst (CreateFileW (open_args fl wpath flags)),
         map_win32_err (snd (CreateFileW (open_args fl wpath flags)))) \<and>
      lpFileName (open_args fl wpath flags) = wpath \<and>
      (fst (CreateFileW (open_args fl wpath flags)) \<noteq> INVALID_HANDLE_VALUE \<longrightarrow>
         fst (w_handle_open fl to_unc CreateFileW e ''/dev/null'' flags) \<noteq> INVALID_HANDLE_VALUE))"
proof -
  have name: "lpFileName (open_args fl wpath flags) = wpath"
    by (simp add: open_args_def Let_def split del: if_split)
  have run: "\<And>p. w_handle_open fl to_unc CreateFileW e p flags =
      (case to_unc (if p = ''/dev/null'' then ''NUL:'' else p) of
         None \<Rightarrow> (INVALID_HANDLE_VALUE, e)
       | Some wp \<Rightarrow> (fst (CreateFileW (open_args fl wp flags)),
                    map_win32_err (snd (CreateFileW (open_args fl wp flags)))))"
    by (simp add: w_handle_open_def Let_def split: prod.splits option.splits)
  show ?thesis using name by (simp add: run)
qed

theorem dev_null_opens_nul_witness:
  "w_handle_open msvc_oflags (\<lambda>p. Some p)
     (\<lambda>args. if lpFileName args = ''NUL:'' then (3, 0) else (INVALID_HANDLE_VALUE, 2))
     EAGAIN ''/dev/null'' 0 = (3, map_win32_err 0)"
proof -
  let ?os = "\<lambda>args :: string create_args.
      if lpFileName args = ''NUL:'' then (3 :: HANDLE, 0 :: dword) else (INVALID_HANDLE_VALUE, 2)"
  have c: "(\<lambda>p :: string. Some p) ''NUL:'' = Some ''NUL:''" by simp
  from dev_null_opens_nul [of msvc_oflags "\<lambda>p. Some p" ?os EAGAIN 0 "''NUL:''",
      THEN conjunct2, rule_format, OF c]
  have run: "w_handle_open msvc_oflags (\<lambda>p. Some p) ?os EAGAIN ''/dev/null'' 0 =
        (fst (?os (open_args msvc_oflags ''NUL:'' 0)),
         map_win32_err (snd (?os (open_args msvc_oflags ''NUL:'' 0))))"
    and name: "lpFileName (open_args msvc_oflags ''NUL:'' 0) = ''NUL:''"
    by blast+
  show ?thesis unfolding run name by simp
qed

end
